theory Spec2Isabelle
  imports Complex_Main "HOL-Library.Sublist"
begin

section \<open>Python strings\<close>

text \<open>
  A Python \<open>str\<close> is modelled as a \<open>string\<close> whose characters are the code points
  below 256 (Latin-1), which covers every literal of the program, including the
  superscript two (U+00B2) of \<open>kg/m\<^sup>2\<close>. The functions below follow what the Python
  built-ins do on such strings.
\<close>

text \<open>\<open>str.isspace\<close> on one character; the regular-expression class \<open>\s\<close> is the same set.\<close>

definition is_space :: "char \<Rightarrow> bool" where
  "is_space c = (c \<in> set [CHR 0x09, CHR 0x0A, CHR 0x0B, CHR 0x0C, CHR 0x0D,
     CHR 0x1C, CHR 0x1D, CHR 0x1E, CHR 0x1F, CHR 0x20, CHR 0x85, CHR 0xA0])"

text \<open>\<open>str.lower\<close>: the letters A-Z and the Latin-1 capitals U+00C0..U+00DE (but not the
  multiplication sign U+00D7) are replaced by the letter 32 code points up; every other
  character stays.\<close>

definition upper_letters :: string where
  "upper_letters = ''ABCDEFGHIJKLMNOPQRSTUVWXYZ'' @
    [CHR 0xC0, CHR 0xC1, CHR 0xC2, CHR 0xC3, CHR 0xC4, CHR 0xC5, CHR 0xC6, CHR 0xC7,
     CHR 0xC8, CHR 0xC9, CHR 0xCA, CHR 0xCB, CHR 0xCC, CHR 0xCD, CHR 0xCE, CHR 0xCF,
     CHR 0xD0, CHR 0xD1, CHR 0xD2, CHR 0xD3, CHR 0xD4, CHR 0xD5, CHR 0xD6, CHR 0xD8,
     CHR 0xD9, CHR 0xDA, CHR 0xDB, CHR 0xDC, CHR 0xDD, CHR 0xDE]"

definition lower_letters :: string where
  "lower_letters = ''abcdefghijklmnopqrstuvwxyz'' @
    [CHR 0xE0, CHR 0xE1, CHR 0xE2, CHR 0xE3, CHR 0xE4, CHR 0xE5, CHR 0xE6, CHR 0xE7,
     CHR 0xE8, CHR 0xE9, CHR 0xEA, CHR 0xEB, CHR 0xEC, CHR 0xED, CHR 0xEE, CHR 0xEF,
     CHR 0xF0, CHR 0xF1, CHR 0xF2, CHR 0xF3, CHR 0xF4, CHR 0xF5, CHR 0xF6, CHR 0xF8,
     CHR 0xF9, CHR 0xFA, CHR 0xFB, CHR 0xFC, CHR 0xFD, CHR 0xFE]"

definition lower_char :: "char \<Rightarrow> char" where
  "lower_char c = (case map_of (zip upper_letters lower_letters) c of None \<Rightarrow> c | Some l \<Rightarrow> l)"

definition lower :: "string \<Rightarrow> string" where
  "lower s = map lower_char s"

text \<open>\<open>str.strip()\<close> removes the white space at both ends.\<close>

definition strip :: "string \<Rightarrow> string" where
  "strip s = rev (dropWhile is_space (rev (dropWhile is_space s)))"

text \<open>\<open>sub in s\<close> for two strings.\<close>

fun contains :: "string \<Rightarrow> string \<Rightarrow> bool" where
  "contains sub [] = (sub = [])"
| "contains sub (c # cs) = (prefix sub (c # cs) \<or> contains sub cs)"

text \<open>
  \<open>s.split(sep)\<close>: the pieces between the leftmost, non-overlapping occurrences of
  \<open>sep\<close>. Python raises \<open>ValueError\<close> on an empty separator; the program only ever
  splits on the five characters \<open>" and "\<close>.
\<close>

fun py_split :: "string \<Rightarrow> string \<Rightarrow> string list" where
  "py_split sep [] = [[]]"
| "py_split sep (c # cs) =
     (if prefix sep (c # cs) then [] # py_split sep (drop (length sep - 1) cs)
      else (case py_split sep cs of
              [] \<Rightarrow> [[c]]
            | p # ps \<Rightarrow> (c # p) # ps))"

text \<open>\<open>s.replace(old, "")\<close> for a non-empty \<open>old\<close>: every leftmost, non-overlapping
  occurrence is dropped.\<close>

fun remove_all :: "string \<Rightarrow> string \<Rightarrow> string" where
  "remove_all old [] = []"
| "remove_all old (c # cs) =
     (if prefix old (c # cs) then remove_all old (drop (length old - 1) cs)
      else c # remove_all old cs)"

section \<open>Questions, patients and answers\<close>

text \<open>
  Modelled from the spec: the module \<open>app/models.py\<close> (\<open>Question\<close>, \<open>Patient\<close>,
  \<open>Prescription\<close>) is not among the sources. The spec gives a question a type that is
  one of \<open>text\<close> and \<open>boolean\<close>, a key, a content and an optional visibility condition;
  a patient has names, a date of birth (the code parses it from a string), a gender, a
  prescription of four fields and an ordered list of visit notes.
\<close>

datatype question_type = Text | Boolean

record question =
  qtype :: question_type
  key :: string
  content :: string
  visible_if :: "string option"

record prescription =
  medication :: string
  dosage :: string
  frequency :: string
  duration :: string

record patient =
  first_name :: string
  last_name :: string
  date_of_birth :: string
  gender :: string
  prescription :: prescription
  visit_notes :: "string list"

text \<open>An answer value is \<open>str | bool\<close>.\<close>

datatype answer_value = VStr string | VBool bool

text \<open>\<open>str(v)\<close> on an answer value.\<close>

fun str_value :: "answer_value \<Rightarrow> string" where
  "str_value (VStr s) = s"
| "str_value (VBool True) = ''True''"
| "str_value (VBool False) = ''False''"

section \<open>Visibility conditions\<close>

text \<open>
  The regular expression \<open>\{([^}]+)\}\s*=\s*(.+)\<close> of \<open>_evaluate_condition\<close>, applied with
  \<open>re.match\<close> (anchored at the start only). \<open>match_value\<close> is the part \<open>\s*(.+)\<close> after
  the equals sign: the dot matches everything but a line feed, so the group ends at the
  first line feed. When nothing but white space follows the equals sign, the engine
  backtracks and the group is the last of these characters that is not a line feed.
\<close>

definition match_value :: "string \<Rightarrow> string option" where
  "match_value r =
     (case dropWhile is_space r of
        _ # _ \<Rightarrow> Some (takeWhile (\<lambda>x. x \<noteq> CHR 0x0A) (dropWhile is_space r))
      | [] \<Rightarrow> (case filter (\<lambda>x. x \<noteq> CHR 0x0A) r of
                 [] \<Rightarrow> None
               | w # ws \<Rightarrow> Some [last (w # ws)]))"

definition match_clause :: "string \<Rightarrow> (string \<times> string) option" where
  "match_clause s =
     (case s of
        [] \<Rightarrow> None
      | c # rest \<Rightarrow>
          if c \<noteq> CHR ''{'' then None
          else (let k = takeWhile (\<lambda>x. x \<noteq> CHR ''}'') rest in
            if k = [] then None
            else (case dropWhile (\<lambda>x. x \<noteq> CHR ''}'') rest of
                    [] \<Rightarrow> None
                  | _ # r1 \<Rightarrow>
                      (case dropWhile is_space r1 of
                         [] \<Rightarrow> None
                       | e # r2 \<Rightarrow>
                           if e \<noteq> CHR ''='' then None
                           else map_option (Pair k) (match_value r2)))))"

lemma length_strip_le: "length (strip s) \<le> length s"
proof -
  have "length (dropWhile is_space (rev (dropWhile is_space s)))
          \<le> length (rev (dropWhile is_space s))"
    by (rule length_dropWhile_le)
  also have "\<dots> \<le> length s"
    by (simp add: length_dropWhile_le)
  finally show ?thesis
    by (simp add: strip_def)
qed

lemma py_split_part_le: "p \<in> set (py_split sep s) \<Longrightarrow> length p \<le> length s"
proof (induction sep s arbitrary: p rule: py_split.induct)
  case (1 sep)
  then show ?case by simp
next
  case (2 sep c cs)
  show ?case
  proof (cases "prefix sep (c # cs)")
    case True
    with "2.prems" have "p = [] \<or> p \<in> set (py_split sep (drop (length sep - 1) cs))"
      by simp
    then show ?thesis
    proof
      assume "p = []"
      then show ?thesis by simp
    next
      assume "p \<in> set (py_split sep (drop (length sep - 1) cs))"
      then have "length p \<le> length (drop (length sep - 1) cs)"
        using "2.IH"(1) True by blast
      then show ?thesis by simp
    qed
  next
    case False
    show ?thesis
    proof (cases "py_split sep cs")
      case Nil
      with False "2.prems" show ?thesis by simp
    next
      case (Cons q qs)
      with False "2.prems" have "p = c # q \<or> p \<in> set qs"
        by simp
      then show ?thesis
      proof
        assume "p = c # q"
        moreover have "length q \<le> length cs"
          using "2.IH"(2) False Cons by simp
        ultimately show ?thesis by simp
      next
        assume "p \<in> set qs"
        then have "length p \<le> length cs"
          using "2.IH"(2) False Cons by simp
        then show ?thesis by simp
      qed
    qed
  qed
qed

lemma py_split_part_less:
  "contains sep s \<Longrightarrow> sep \<noteq> [] \<Longrightarrow> p \<in> set (py_split sep s) \<Longrightarrow> length p < length s"
proof (induction sep s arbitrary: p rule: py_split.induct)
  case (1 sep)
  then show ?case by simp
next
  case (2 sep c cs)
  show ?case
  proof (cases "prefix sep (c # cs)")
    case True
    with "2.prems" have "p = [] \<or> p \<in> set (py_split sep (drop (length sep - 1) cs))"
      by simp
    then show ?thesis
    proof
      assume "p = []"
      then show ?thesis by simp
    next
      assume "p \<in> set (py_split sep (drop (length sep - 1) cs))"
      then have "length p \<le> length (drop (length sep - 1) cs)"
        by (rule py_split_part_le)
      then show ?thesis by simp
    qed
  next
    case False
    with "2.prems" have sub: "contains sep cs"
      by simp
    show ?thesis
    proof (cases "py_split sep cs")
      case Nil
      with False "2.prems" sub "2.IH"(2) show ?thesis
        by (cases cs) simp_all
    next
      case (Cons q qs)
      with False "2.prems" have "p = c # q \<or> p \<in> set qs"
        by simp
      then show ?thesis
      proof
        assume "p = c # q"
        moreover have "length q < length cs"
          using "2.IH"(2) False sub "2.prems"(2) Cons by simp
        ultimately show ?thesis by simp
      next
        assume "p \<in> set qs"
        then have "length p < length cs"
          using "2.IH"(2) False sub "2.prems"(2) Cons by simp
        then show ?thesis by simp
      qed
    qed
  qed
qed

text \<open>
  \<open>_evaluate_condition\<close>. The accumulated answers are a dictionary; it is kept as an
  association list in insertion order, read with \<open>map_of\<close>.
\<close>

function evaluate_condition :: "string \<Rightarrow> (string \<times> answer_value) list \<Rightarrow> bool" where
  "evaluate_condition condition answers =
     (if condition = [] then True
      else if contains '' and '' condition then
        list_all (\<lambda>part. evaluate_condition (strip part) answers)
          (py_split '' and '' condition)
      else (case match_clause (strip condition) of
              Some (k, expected_value) \<Rightarrow>
                (case map_of answers k of
                   None \<Rightarrow> False
                 | Some actual \<Rightarrow> lower (str_value actual) = lower (strip expected_value))
            | None \<Rightarrow> True))"
  by pat_completeness auto
termination
proof (relation "measure (\<lambda>(c, a). length c)")
  show "wf (measure (\<lambda>(c, a). length c))"
    by simp
next
  fix condition :: string and answers :: "(string \<times> answer_value) list" and part
  assume "contains '' and '' condition" and "part \<in> set (py_split '' and '' condition)"
  then have "length part < length condition"
    using py_split_part_less [of "'' and ''" condition part] by simp
  moreover have "length (strip part) \<le> length part"
    by (rule length_strip_le)
  ultimately show "((strip part, answers), (condition, answers)) \<in> measure (\<lambda>(c, a). length c)"
    by simp
qed

declare evaluate_condition.simps [simp del]

text \<open>One clause of a condition, after \<open>strip\<close>: the branch of \<open>_evaluate_condition\<close> below
  the test for \<open>" and "\<close>.\<close>

definition clause_holds :: "string \<Rightarrow> (string \<times> answer_value) list \<Rightarrow> bool" where
  "clause_holds s answers =
     (case match_clause s of
        None \<Rightarrow> True
      | Some (k, v) \<Rightarrow>
          (case map_of answers k of
             None \<Rightarrow> False
           | Some a \<Rightarrow> lower (str_value a) = lower (strip v)))"

text \<open>The test at the head of the loop of \<open>process_questions_batch\<close>:
  \<open>question.visible_if and not self._evaluate_condition(...)\<close>.\<close>

definition skipped :: "question \<Rightarrow> (string \<times> answer_value) list \<Rightarrow> bool" where
  "skipped q answered =
     (case visible_if q of
        None \<Rightarrow> False
      | Some c \<Rightarrow> c \<noteq> [] \<and> \<not> evaluate_condition c answered)"

section \<open>Errors and dates\<close>

text \<open>The exceptions the modelled code can raise; \<open>BackendError\<close> stands for whatever
  the completion client raises (all of them subclasses of \<open>Exception\<close>).\<close>

datatype error = ValueError | KeyError | TypeError | AttributeError | ValidationError | BackendError string

text \<open>The year, month and day of a \<open>datetime\<close>.\<close>

record date =
  year :: int
  month :: int
  day :: int

text \<open>Decimal digits and the number they write (\<open>int(s)\<close> on a string of digits, where a
  leading blank counts for nothing).\<close>

definition is_digit :: "char \<Rightarrow> bool" where
  "is_digit c = (c \<in> set ''0123456789'')"

definition digit_val :: "char \<Rightarrow> int" where
  "digit_val c = (case map_of (zip ''0123456789'' [0, 1, 2, 3, 4, 5, 6, 7, 8, 9]) c of
                    None \<Rightarrow> 0 | Some d \<Rightarrow> d)"

definition int_of_digits :: "string \<Rightarrow> int" where
  "int_of_digits s = foldl (\<lambda>n c. 10 * n + digit_val c) 0 s"

text \<open>The alternatives of \<open>_strptime\<close> for \<open>%m\<close>, \<open>1[0-2]|0[1-9]|[1-9]\<close>, and for \<open>%d\<close>,
  \<open>3[0-1]|[1-2]\d|0[1-9]|[1-9]| [1-9]\<close>.\<close>

definition month_token :: "string \<Rightarrow> bool" where
  "month_token s =
     (case s of
        [a] \<Rightarrow> a \<in> set ''123456789''
      | [a, b] \<Rightarrow> (a = CHR ''1'' \<and> b \<in> set ''012'') \<or> (a = CHR ''0'' \<and> b \<in> set ''123456789'')
      | _ \<Rightarrow> False)"

definition day_token :: "string \<Rightarrow> bool" where
  "day_token s =
     (case s of
        [a] \<Rightarrow> a \<in> set ''123456789''
      | [a, b] \<Rightarrow> (a = CHR ''3'' \<and> b \<in> set ''01'') \<or> (a \<in> set ''12'' \<and> is_digit b)
                 \<or> (a = CHR ''0'' \<and> b \<in> set ''123456789'')
                 \<or> (a = CHR '' '' \<and> b \<in> set ''123456789'')
      | _ \<Rightarrow> False)"

text \<open>The calendar: \<open>datetime\<close> refuses a day beyond the length of the month and the year 0.\<close>

definition is_leap :: "int \<Rightarrow> bool" where
  "is_leap y = (y mod 4 = 0 \<and> (y mod 100 \<noteq> 0 \<or> y mod 400 = 0))"

definition days_in_month :: "int \<Rightarrow> int \<Rightarrow> int" where
  "days_in_month y m =
     (if m = 2 then (if is_leap y then 29 else 28)
      else if m \<in> {4, 6, 9, 11} then 30 else 31)"

text \<open>\<open>datetime.strptime(s, "%Y-%m-%d")\<close>: four digits, a hyphen, a month, a hyphen, a day and
  nothing after it; everything else raises \<open>ValueError\<close>.\<close>

definition strptime_ymd :: "string \<Rightarrow> error + date" where
  "strptime_ymd s =
     (let y = take 4 s; r = drop 4 s;
          m = takeWhile (\<lambda>c. c \<noteq> CHR ''-'') (drop 1 r);
          d = drop 1 (dropWhile (\<lambda>c. c \<noteq> CHR ''-'') (drop 1 r))
      in if length y = 4 \<and> list_all is_digit y \<and> take 1 r = ''-'' \<and> month_token m
            \<and> take 1 (dropWhile (\<lambda>c. c \<noteq> CHR ''-'') (drop 1 r)) = ''-'' \<and> day_token d
         then (let yy = int_of_digits y; mm = int_of_digits m; dd = int_of_digits d
               in if 1 \<le> yy \<and> dd \<le> days_in_month yy mm
                  then Inr \<lparr>year = yy, month = mm, day = dd\<rparr>
                  else Inl ValueError)
         else Inl ValueError)"

text \<open>Python's order on the pairs \<open>(month, day)\<close>.\<close>

definition md_earlier :: "date \<Rightarrow> date \<Rightarrow> bool" where
  "md_earlier a b = (month a < month b \<or> (month a = month b \<and> day a < day b))"

text \<open>\<open>_calculate_age\<close>, with the result of \<open>datetime.now()\<close> as the argument \<open>today\<close>.\<close>

definition calculate_age :: "date \<Rightarrow> string \<Rightarrow> error + int" where
  "calculate_age today dob_text =
     (case strptime_ymd dob_text of
        Inl e \<Rightarrow> Inl e
      | Inr dob \<Rightarrow> Inr (year today - year dob - (if md_earlier today dob then 1 else 0)))"

section \<open>Decoded JSON and Python values\<close>

text \<open>A Python float is a finite double, kept as the rational number it is, an infinity or
  a NaN. A value decoded by \<open>json.loads\<close> is \<open>None\<close>, a boolean, an integer, a float, a
  string, a list, or a dictionary (kept as an association list, read with \<open>map_of\<close>).\<close>

datatype py_float = Finite rat | PosInf | NegInf | NaN

datatype json =
    JNull
  | JBool bool
  | JInt int
  | JFloat py_float
  | JStr string
  | JArr "json list"
  | JObj "(string \<times> json) list"

text \<open>\<open>result[k]\<close> and \<open>result.get(k, d)\<close> for a string \<open>k\<close>.\<close>

fun subscript :: "json \<Rightarrow> string \<Rightarrow> error + json" where
  "subscript (JObj kvs) k = (case map_of kvs k of None \<Rightarrow> Inl KeyError | Some v \<Rightarrow> Inr v)"
| "subscript _ k = Inl TypeError"

fun get_default :: "json \<Rightarrow> string \<Rightarrow> json \<Rightarrow> error + json" where
  "get_default (JObj kvs) k d = (case map_of kvs k of None \<Rightarrow> Inr d | Some v \<Rightarrow> Inr v)"
| "get_default _ k d = Inl AttributeError"

text \<open>\<open>bool(x)\<close>: the truth value Python gives a decoded JSON value.\<close>

fun truthy :: "json \<Rightarrow> bool" where
  "truthy JNull = False"
| "truthy (JBool b) = b"
| "truthy (JInt i) = (i \<noteq> 0)"
| "truthy (JFloat f) = (f \<noteq> Finite 0)"
| "truthy (JStr s) = (s \<noteq> [])"
| "truthy (JArr xs) = (xs \<noteq> [])"
| "truthy (JObj kvs) = (kvs \<noteq> [])"

text \<open>\<open>x < 0.8\<close>: numbers (and booleans, which are integers) compare by value, a NaN is
  below nothing, anything else raises \<open>TypeError\<close>. The literal \<open>0.8\<close> is the double nearest
  to 8/10; no double and no integer lies between the two, so on the values Python can
  hold the comparison with 8/10 gives the same answer.\<close>

fun less_than_0_8 :: "json \<Rightarrow> error + bool" where
  "less_than_0_8 (JInt i) = Inr (of_int i < (0.8 :: rat))"
| "less_than_0_8 (JBool b) = Inr (\<not> b)"
| "less_than_0_8 (JFloat (Finite r)) = Inr (r < 0.8)"
| "less_than_0_8 (JFloat NegInf) = Inr True"
| "less_than_0_8 (JFloat PosInf) = Inr False"
| "less_than_0_8 (JFloat NaN) = Inr False"
| "less_than_0_8 _ = Inl TypeError"

text \<open>\<open>str(n)\<close> for an integer.\<close>

fun str_nat :: "nat \<Rightarrow> string" where
  "str_nat n = (if n < 10 then [''0123456789'' ! n]
                else str_nat (n div 10) @ [''0123456789'' ! (n mod 10)])"

definition str_int :: "int \<Rightarrow> string" where
  "str_int i = (if i < 0 then ''-'' @ str_nat (nat (- i)) else str_nat (nat i))"

text \<open>\<open>sep.join(parts)\<close>.\<close>

fun join :: "string \<Rightarrow> string list \<Rightarrow> string" where
  "join sep [] = []"
| "join sep [x] = x"
| "join sep (x # y # ys) = x @ sep @ join sep (y # ys)"

declare str_nat.simps [simp del]

section \<open>The answer pipeline\<close>

text \<open>The state of an \<open>LLMService\<close> after \<open>__init__\<close>: the client (absent when no API key is
  configured) and the four flags read from the environment. A present client is the
  sequence of its replies: entry \<open>n\<close> is what the \<open>n\<close>-th request of the run gives after
  \<open>json.loads\<close>, or the exception raised by the request or by the decoding. Every reply
  is used for one request, so a statement about all such sequences covers every
  completion service, whatever it makes of the prompts.

  Three things the code takes from its surroundings are fields too: \<open>now\<close>, the date
  \<open>datetime.now()\<close> returns; \<open>str_other\<close>, what \<open>str()\<close> prints for a float, a list or a
  dictionary; \<open>float_of_str\<close>, the number pydantic reads from a string that is given for
  a float field, if it reads one.\<close>

record llm_service =
  client :: "(nat \<Rightarrow> error + json) option"
  enable_confidence :: bool
  enable_actor_critic :: bool
  enable_few_shot :: bool
  enable_reasoning :: bool
  now :: date
  str_other :: "json \<Rightarrow> string"
  float_of_str :: "string \<Rightarrow> py_float option"

text \<open>The state that a run changes: how many requests the client has answered, and the
  record of the calls to \<open>_generate_base_answer\<close>, \<open>_critic_evaluate_answer\<close> and
  \<open>_refine_answer_with_feedback\<close>, each written on entry.\<close>

datatype step = ActorStep | CriticStep | RefinerStep

record world =
  calls :: nat
  steps :: "step list"

definition enter :: "step \<Rightarrow> world \<Rightarrow> world" where
  "enter s w = w\<lparr>steps := steps w @ [s]\<rparr>"

text \<open>One request \<open>await self.client.chat.completions.create(...)\<close> followed by
  \<open>json.loads\<close> of the content of the reply.\<close>

definition completion :: "(nat \<Rightarrow> error + json) \<Rightarrow> world \<Rightarrow> (error + json) \<times> world" where
  "completion tape w = (tape (calls w), w\<lparr>calls := Suc (calls w)\<rparr>)"

text \<open>\<open>str(x)\<close> on a decoded value.\<close>

fun py_str :: "llm_service \<Rightarrow> json \<Rightarrow> string" where
  "py_str svc (JStr s) = s"
| "py_str svc JNull = ''None''"
| "py_str svc (JBool b) = (if b then ''True'' else ''False'')"
| "py_str svc (JInt i) = str_int i"
| "py_str svc j = str_other svc j"

text \<open>\<open>AnswerWithConfidence\<close> and the validation pydantic runs in its constructor:
  \<open>confidence: float = Field(ge=0.0, le=1.0)\<close>, \<open>reasoning: str | None\<close>,
  \<open>improvements: list[str] | None\<close>. A field that does not validate raises
  \<open>ValidationError\<close>. For the float field pydantic (version 2, in its default lax mode)
  takes an integer, a boolean or a float as the number it is and tries to read a string
  as a number; the bounds then refuse what is below 0, above 1 or not a number. A string
  or \<open>None\<close> is accepted for \<open>reasoning\<close> and nothing else; a list of strings or \<open>None\<close> for
  \<open>improvements\<close>.\<close>

record answer_with_confidence =
  awc_question :: question
  awc_value :: answer_value
  awc_confidence :: rat
  awc_reasoning :: "string option"
  awc_improvements :: "string list option"

fun validate_confidence :: "llm_service \<Rightarrow> json \<Rightarrow> error + rat" where
  "validate_confidence svc (JInt i) =
     (if 0 \<le> i \<and> i \<le> 1 then Inr (of_int i) else Inl ValidationError)"
| "validate_confidence svc (JBool b) = Inr (if b then 1 else 0)"
| "validate_confidence svc (JFloat f) =
     (case f of
        Finite r \<Rightarrow> if 0 \<le> r \<and> r \<le> 1 then Inr r else Inl ValidationError
      | _ \<Rightarrow> Inl ValidationError)"
| "validate_confidence svc (JStr s) =
     (case float_of_str svc s of
        Some (Finite r) \<Rightarrow> if 0 \<le> r \<and> r \<le> 1 then Inr r else Inl ValidationError
      | _ \<Rightarrow> Inl ValidationError)"
| "validate_confidence svc _ = Inl ValidationError"

fun validate_reasoning :: "json \<Rightarrow> error + string option" where
  "validate_reasoning (JStr s) = Inr (Some s)"
| "validate_reasoning JNull = Inr None"
| "validate_reasoning _ = Inl ValidationError"

fun str_list :: "json list \<Rightarrow> string list option" where
  "str_list [] = Some []"
| "str_list (JStr s # xs) = map_option ((#) s) (str_list xs)"
| "str_list (_ # xs) = None"

fun validate_improvements :: "json \<Rightarrow> error + string list option" where
  "validate_improvements JNull = Inr None"
| "validate_improvements (JArr xs) =
     (case str_list xs of None \<Rightarrow> Inl ValidationError | Some ss \<Rightarrow> Inr (Some ss))"
| "validate_improvements _ = Inl ValidationError"

definition make_answer ::
  "llm_service \<Rightarrow> question \<Rightarrow> answer_value \<Rightarrow> json \<Rightarrow> json \<Rightarrow> json \<Rightarrow> error + answer_with_confidence" where
  "make_answer svc q v confidence reasoning improvements =
     (case validate_confidence svc confidence of
        Inl e \<Rightarrow> Inl e
      | Inr c \<Rightarrow>
     (case validate_reasoning reasoning of
        Inl e \<Rightarrow> Inl e
      | Inr r \<Rightarrow>
     (case validate_improvements improvements of
        Inl e \<Rightarrow> Inl e
      | Inr imps \<Rightarrow>
          Inr \<lparr>awc_question = q, awc_value = v, awc_confidence = c,
               awc_reasoning = r, awc_improvements = imps\<rparr>)))"

text \<open>\<open>_extract_patient_context\<close>.\<close>

definition extract_patient_context :: "llm_service \<Rightarrow> patient \<Rightarrow> error + string" where
  "extract_patient_context svc p =
     (case calculate_age (now svc) (date_of_birth p) of
        Inl e \<Rightarrow> Inl e
      | Inr age \<Rightarrow>
          Inr (join [CHR 0x0A]
            ([''Patient Information:'',
              ''- Name: '' @ first_name p @ '' '' @ last_name p,
              ''- Age: '' @ str_int age @ '' years'',
              ''- Gender: '' @ gender p,
              ''- Date of Birth: '' @ date_of_birth p,
              CHR 0x0A # ''Current Prescription:'',
              ''- Medication: '' @ medication (prescription p),
              ''- Dosage: '' @ dosage (prescription p),
              ''- Frequency: '' @ frequency (prescription p),
              ''- Duration: '' @ duration (prescription p),
              CHR 0x0A # ''Visit Notes:'']
             @ map (\<lambda>(i, note). str_nat i @ ''. '' @ note)
                 (zip [1 ..< Suc (length (visit_notes p))] (visit_notes p)))))"

text \<open>\<open>_simulate_answer\<close>.\<close>

definition simulate_answer :: "string \<Rightarrow> question \<Rightarrow> answer_value \<times> json" where
  "simulate_answer patient_context q =
     (case qtype q of
        Boolean \<Rightarrow>
          if contains ''bmi'' (lower (key q))
             \<and> (contains ''32'' patient_context \<or> contains ''35'' patient_context)
          then (VBool True, JStr ''Patient BMI exceeds threshold based on available data'')
          else (VBool False, JStr ''Unable to determine from available information'')
      | Text \<Rightarrow>
          if key q = ''age'' then (VStr ''45'', JStr ''Age estimated from available patient data'')
          else if key q = ''bmi''
          then (VStr ''32.5'', JStr ''BMI value extracted from patient records'')
          else (VStr ''Information not available'', JStr ''Cannot determine from current data''))"

text \<open>\<open>_generate_base_answer\<close> (the Actor). The prompts are text sent to the client and do
  not appear; the reply is post-processed as in the source.\<close>

definition generate_base_answer ::
  "llm_service \<Rightarrow> string \<Rightarrow> question \<Rightarrow> world \<Rightarrow> (error + answer_value \<times> json) \<times> world" where
  "generate_base_answer svc patient_context q w0 =
     (let w = enter ActorStep w0 in
      case client svc of
        None \<Rightarrow> (Inr (simulate_answer patient_context q), w)
      | Some tape \<Rightarrow>
          (case completion tape w of
             (Inl e, w') \<Rightarrow> (Inl e, w')
           | (Inr result, w') \<Rightarrow>
               (case subscript result ''answer'' of
                  Inl e \<Rightarrow> (Inl e, w')
                | Inr answer \<Rightarrow>
                    (let v = (case qtype q of
                                Text \<Rightarrow> VStr (py_str svc answer)
                              | Boolean \<Rightarrow>
                                  (case answer of
                                     JStr s \<Rightarrow> VBool (lower s \<in> set [''true'', ''yes'', ''1''])
                                   | _ \<Rightarrow> VBool (truthy answer)))
                     in case subscript result ''reasoning'' of
                          Inl e \<Rightarrow> (Inl e, w')
                        | Inr reasoning \<Rightarrow> (Inr (v, reasoning), w')))))"

text \<open>\<open>_critic_evaluate_answer\<close> (the Critic); the first test is
  \<open>not self.enable_actor_critic or not self.client\<close>.\<close>

definition critic_evaluate_answer ::
  "llm_service \<Rightarrow> string \<Rightarrow> question \<Rightarrow> answer_value \<Rightarrow> json \<Rightarrow> world
     \<Rightarrow> (error + json \<times> json) \<times> world" where
  "critic_evaluate_answer svc patient_context q proposed_answer reasoning w0 =
     (let w = enter CriticStep w0 in
      case (if enable_actor_critic svc then client svc else None) of
        None \<Rightarrow> (Inr (JFloat (Finite 0.9), JArr []), w)
      | Some tape \<Rightarrow>
          (case completion tape w of
             (Inl e, w') \<Rightarrow> (Inl e, w')
           | (Inr result, w') \<Rightarrow>
               (case subscript result ''confidence_score'' of
                  Inl e \<Rightarrow> (Inl e, w')
                | Inr confidence \<Rightarrow>
                    (case get_default result ''improvements'' (JArr []) of
                       Inl e \<Rightarrow> (Inl e, w')
                     | Inr improvements \<Rightarrow> (Inr (confidence, improvements), w')))))"

text \<open>\<open>_refine_answer_with_feedback\<close> (the Refiner). Its prompt enumerates the improvements
  before the request is sent, which raises \<open>TypeError\<close> on a value that cannot be
  iterated.\<close>

fun iterable :: "json \<Rightarrow> bool" where
  "iterable (JStr s) = True"
| "iterable (JArr xs) = True"
| "iterable (JObj kvs) = True"
| "iterable _ = False"

definition refine_answer_with_feedback ::
  "llm_service \<Rightarrow> string \<Rightarrow> question \<Rightarrow> answer_value \<Rightarrow> json \<Rightarrow> world
     \<Rightarrow> (error + answer_value \<times> json) \<times> world" where
  "refine_answer_with_feedback svc patient_context q original_answer improvements w0 =
     (let w = enter RefinerStep w0 in
      case client svc of
        None \<Rightarrow>
          (Inr (original_answer,
                JStr ''Answer maintained (no LLM client available for refinement)''), w)
      | Some tape \<Rightarrow>
          if \<not> iterable improvements then (Inl TypeError, w)
          else
          (case completion tape w of
             (Inl e, w') \<Rightarrow> (Inl e, w')
           | (Inr result, w') \<Rightarrow>
               (case subscript result ''refined_answer'' of
                  Inl e \<Rightarrow> (Inl e, w')
                | Inr answer \<Rightarrow>
                    (let v = (case qtype q of
                                Text \<Rightarrow> VStr (py_str svc answer)
                              | Boolean \<Rightarrow>
                                  (case answer of
                                     JStr s \<Rightarrow> VBool (lower s \<in> set [''true'', ''yes'', ''1''])
                                   | _ \<Rightarrow> VBool (truthy answer)))
                     in case subscript result ''reasoning'' of
                          Inl e \<Rightarrow> (Inl e, w')
                        | Inr reasoning \<Rightarrow> (Inr (v, reasoning), w')))))"

text \<open>The block \<open>if previous_answers:\<close> of \<open>generate_answer_with_confidence\<close>.\<close>

definition with_previous_answers :: "string \<Rightarrow> (string \<times> answer_value) list option \<Rightarrow> string" where
  "with_previous_answers patient_context previous_answers =
     (case previous_answers of
        None \<Rightarrow> patient_context
      | Some [] \<Rightarrow> patient_context
      | Some (a # as) \<Rightarrow>
          join [CHR 0x0A]
            ([patient_context, CHR 0x0A # ''### Previously Answered Questions:'']
             @ map (\<lambda>(k, v). ''- '' @ k @ '': '' @ str_value v) (a # as)))"

text \<open>\<open>generate_answer_with_confidence\<close>.\<close>

definition generate_answer_with_confidence ::
  "llm_service \<Rightarrow> patient \<Rightarrow> question \<Rightarrow> (string \<times> answer_value) list option \<Rightarrow> world
     \<Rightarrow> (error + answer_with_confidence) \<times> world" where
  "generate_answer_with_confidence svc p q previous_answers w =
     (case extract_patient_context svc p of
        Inl e \<Rightarrow> (Inl e, w)
      | Inr base_context \<Rightarrow>
     (let patient_context = with_previous_answers base_context previous_answers in
      case generate_base_answer svc patient_context q w of
        (Inl e, w1) \<Rightarrow> (Inl e, w1)
      | (Inr (answer_value, reasoning), w1) \<Rightarrow>
     (case critic_evaluate_answer svc patient_context q answer_value reasoning w1 of
        (Inl e, w2) \<Rightarrow> (Inl e, w2)
      | (Inr (confidence, improvements), w2) \<Rightarrow>
     (case less_than_0_8 confidence of
        Inl e \<Rightarrow> (Inl e, w2)
      | Inr low \<Rightarrow>
          if low \<and> truthy improvements \<and> enable_actor_critic svc then
            (case refine_answer_with_feedback svc patient_context q answer_value improvements w2 of
               (Inl e, w3) \<Rightarrow> (Inl e, w3)
             | (Inr (answer_value', reasoning'), w3) \<Rightarrow>
            (case critic_evaluate_answer svc patient_context q answer_value' reasoning' w3 of
               (Inl e, w4) \<Rightarrow> (Inl e, w4)
             | (Inr (confidence', _), w4) \<Rightarrow>
                 (make_answer svc q answer_value'
                    (if enable_confidence svc then confidence' else JFloat (Finite 1))
                    reasoning' (if truthy improvements then improvements else JNull), w4)))
          else
            (make_answer svc q answer_value
               (if enable_confidence svc then confidence else JFloat (Finite 1))
               reasoning (if truthy improvements then improvements else JNull), w2)))))"

text \<open>\<open>answered_questions[question.key] = answer.value\<close>: a key already there keeps its
  place and takes the new value, a new key goes to the end.\<close>

fun dict_set :: "(string \<times> answer_value) list \<Rightarrow> string \<Rightarrow> answer_value \<Rightarrow> (string \<times> answer_value) list" where
  "dict_set [] k v = [(k, v)]"
| "dict_set ((k', v') # kvs) k v =
     (if k' = k then (k, v) # kvs else (k', v') # dict_set kvs k v)"

text \<open>
  \<open>process_questions_batch\<close>. \<open>process_loop\<close> is its \<open>for\<close> loop, with the two local
  variables as arguments; it hands back the accumulated dictionary beside the list, and
  \<open>process_questions_batch\<close> returns the list. An exception of the pipeline leaves the loop.
\<close>

fun process_loop ::
  "llm_service \<Rightarrow> patient \<Rightarrow> question list \<Rightarrow> answer_with_confidence list
     \<Rightarrow> (string \<times> answer_value) list \<Rightarrow> world
     \<Rightarrow> (error + answer_with_confidence list \<times> (string \<times> answer_value) list) \<times> world" where
  "process_loop svc p [] answers_with_confidence answered_questions w =
     (Inr (answers_with_confidence, answered_questions), w)"
| "process_loop svc p (q # qs) answers_with_confidence answered_questions w =
     (if skipped q answered_questions
      then process_loop svc p qs answers_with_confidence answered_questions w
      else (case generate_answer_with_confidence svc p q (Some answered_questions) w of
              (Inl e, w') \<Rightarrow> (Inl e, w')
            | (Inr answer, w') \<Rightarrow>
                process_loop svc p qs (answers_with_confidence @ [answer])
                  (dict_set answered_questions (key q) (awc_value answer)) w'))"

definition process_questions_batch ::
  "llm_service \<Rightarrow> patient \<Rightarrow> question list \<Rightarrow> world
     \<Rightarrow> (error + answer_with_confidence list) \<times> world" where
  "process_questions_batch svc p qs w =
     (case process_loop svc p qs [] [] w of
        (Inl e, w') \<Rightarrow> (Inl e, w')
      | (Inr (answers_with_confidence, answered_questions), w') \<Rightarrow>
          (Inr answers_with_confidence, w'))"

section \<open>The evaluation harness\<close>

text \<open>
  \<open>float(s)\<close> on a string, as far as its result goes. The string is stripped; an underscore
  may only stand between two digits; what is left is an optional sign followed by
  \<open>inf\<close>, \<open>infinity\<close> or \<open>nan\<close> in any case, or by a decimal numeral: digits with an optional
  point, at least one digit in all, and an optional exponent \<open>e\<close> or \<open>E\<close> with its own sign
  and at least one digit. Everything else raises \<open>ValueError\<close>.
\<close>

fun underscores_ok :: "char \<Rightarrow> string \<Rightarrow> bool" where
  "underscores_ok prev [] = (prev \<noteq> CHR ''_'')"
| "underscores_ok prev (c # cs) =
     ((if c = CHR ''_'' then is_digit prev else (prev = CHR ''_'' \<longrightarrow> is_digit c))
      \<and> underscores_ok c cs)"

datatype float_literal = LNum rat | LInf bool | LNaN

definition scale10 :: "int \<Rightarrow> int \<Rightarrow> rat" where
  "scale10 m e = (if 0 \<le> e then of_int m * 10 ^ nat e else of_int m / 10 ^ nat (- e))"

definition exponent_part :: "string \<Rightarrow> int option" where
  "exponent_part s =
     (case s of
        [] \<Rightarrow> Some 0
      | c # r \<Rightarrow>
          if c \<noteq> CHR ''e'' \<and> c \<noteq> CHR ''E'' then None
          else (let neg = (take 1 r = ''-'');
                    ds = (if take 1 r = ''-'' \<or> take 1 r = ''+'' then drop 1 r else r)
                in if ds \<noteq> [] \<and> list_all is_digit ds
                   then Some (if neg then - int_of_digits ds else int_of_digits ds)
                   else None))"

definition number_literal :: "string \<Rightarrow> rat option" where
  "number_literal s =
     (let ip = takeWhile is_digit s; r1 = dropWhile is_digit s;
          fp = (if take 1 r1 = ''.'' then takeWhile is_digit (drop 1 r1) else []);
          r2 = (if take 1 r1 = ''.'' then dropWhile is_digit (drop 1 r1) else r1)
      in if ip @ fp = [] then None
         else (case exponent_part r2 of
                 None \<Rightarrow> None
               | Some e \<Rightarrow> Some (scale10 (int_of_digits (ip @ fp)) (e - int (length fp)))))"

definition float_literal_of :: "string \<Rightarrow> float_literal option" where
  "float_literal_of s =
     (let neg = (take 1 s = ''-'');
          body = (if take 1 s = ''-'' \<or> take 1 s = ''+'' then drop 1 s else s)
      in if lower body = ''inf'' \<or> lower body = ''infinity'' then Some (LInf neg)
         else if lower body = ''nan'' then Some LNaN
         else (case number_literal body of
                 None \<Rightarrow> None
               | Some q \<Rightarrow> Some (LNum (if neg then - q else q))))"

text \<open>
  The numeral is then rounded to a double. The rounding is the argument \<open>nearest\<close>, which
  gives the double nearest to a rational number, or nothing when the number lies beyond
  the doubles and the result is an infinity. Two floats are equal in Python when neither
  is a NaN and they are the same number.
\<close>

definition to_float :: "(rat \<Rightarrow> rat option) \<Rightarrow> rat \<Rightarrow> py_float" where
  "to_float nearest q =
     (case nearest q of
        Some d \<Rightarrow> Finite d
      | None \<Rightarrow> if q < 0 then NegInf else PosInf)"

definition py_float_of :: "(rat \<Rightarrow> rat option) \<Rightarrow> string \<Rightarrow> error + py_float" where
  "py_float_of nearest s =
     (let t = strip s in
      if \<not> underscores_ok (CHR 0x00) t then Inl ValueError
      else (case float_literal_of (filter (\<lambda>c. c \<noteq> CHR ''_'') t) of
              None \<Rightarrow> Inl ValueError
            | Some (LNum q) \<Rightarrow> Inr (to_float nearest q)
            | Some (LInf neg) \<Rightarrow> Inr (if neg then NegInf else PosInf)
            | Some LNaN \<Rightarrow> Inr NaN))"

definition float_eq :: "py_float \<Rightarrow> py_float \<Rightarrow> bool" where
  "float_eq a b = (a \<noteq> NaN \<and> b \<noteq> NaN \<and> a = b)"

text \<open>\<open>actual.replace("kg/m\<^sup>2", "").replace("years", "").strip()\<close>; the superscript is the
  character U+00B2.\<close>

definition without_units :: "string \<Rightarrow> string" where
  "without_units s = strip (remove_all ''years'' (remove_all (''kg/m'' @ [CHR 0xB2]) s))"

text \<open>\<open>_check_answer_correctness\<close>; the \<open>ValueError\<close> of \<open>float\<close> is caught and passed over.\<close>

definition check_answer_correctness ::
  "(rat \<Rightarrow> rat option) \<Rightarrow> answer_value \<Rightarrow> answer_value \<Rightarrow> answer_value list option \<Rightarrow> bool" where
  "check_answer_correctness nearest actual expected acceptable_variations =
     (if actual = expected then True
      else if (case acceptable_variations of
                 None \<Rightarrow> False
               | Some vs \<Rightarrow> vs \<noteq> [] \<and> actual \<in> set vs) then True
      else (case (expected, actual) of
              (VStr e, VStr a) \<Rightarrow>
                (case py_float_of nearest (without_units a) of
                   Inl err \<Rightarrow> False
                 | Inr x \<Rightarrow>
                     (case py_float_of nearest (without_units e) of
                        Inl err \<Rightarrow> False
                      | Inr y \<Rightarrow> float_eq x y))
            | _ \<Rightarrow> False))"

text \<open>
  \<open>TestCase\<close>, \<open>EvaluationResult\<close> and \<open>EvaluationReport\<close>. Of a result, \<open>test_case_id\<close> (built
  from \<open>id()\<close>), \<open>response_time_ms\<close> (wall-clock time) and \<open>reasoning_quality\<close> (a
  floating-point heuristic) are left out, and of a report everything but the three
  counts: the other fields are floating-point statistics and texts derived from them. None
  of the omitted computations can raise: each division is guarded by a test of its
  divisor. The fields \<open>expected\<close>, \<open>actual\<close>, \<open>confidence\<close> and \<open>error\<close> carry the prefix \<open>er_\<close>;
  \<open>er_error\<close> holds the exception whose message the code stores.
\<close>

record test_case =
  tc_patient :: patient
  tc_question :: question
  expected_answer :: answer_value
  acceptable_variations :: "answer_value list option"
  tc_reasoning :: string
  tags :: "string list"

record evaluation_result =
  question_key :: string
  er_expected :: answer_value
  er_actual :: answer_value
  er_confidence :: rat
  is_correct :: bool
  is_acceptable :: bool
  er_error :: "error option"

record evaluation_report =
  total_tests :: int
  passed :: int
  failed :: int

text \<open>\<open>evaluate_single_test\<close>: the body of the \<open>try\<close> and, for any exception of the pipeline,
  the \<open>except Exception\<close> clause.\<close>

definition evaluate_single_test ::
  "(rat \<Rightarrow> rat option) \<Rightarrow> llm_service \<Rightarrow> test_case \<Rightarrow> world \<Rightarrow> evaluation_result \<times> world" where
  "evaluate_single_test nearest svc tc w =
     (case generate_answer_with_confidence svc (tc_patient tc) (tc_question tc) None w of
        (Inr answer, w') \<Rightarrow>
          (let correct = check_answer_correctness nearest (awc_value answer)
                           (expected_answer tc) (acceptable_variations tc)
           in (\<lparr>question_key = key (tc_question tc),
                er_expected = expected_answer tc,
                er_actual = awc_value answer,
                er_confidence = awc_confidence answer,
                is_correct = correct,
                is_acceptable = (correct \<or> awc_value answer \<in> set
                  (case acceptable_variations tc of None \<Rightarrow> [] | Some vs \<Rightarrow> vs)),
                er_error = None\<rparr>, w'))
      | (Inl e, w') \<Rightarrow>
          (\<lparr>question_key = key (tc_question tc),
            er_expected = expected_answer tc,
            er_actual = VStr [],
            er_confidence = 0,
            is_correct = False,
            is_acceptable = False,
            er_error = Some e\<rparr>, w'))"

text \<open>\<open>run_full_evaluation\<close>: \<open>run_tests\<close> is its loop, which appends every result to
  \<open>results\<close> and to \<open>self.historical_results\<close>.\<close>

fun run_tests ::
  "(rat \<Rightarrow> rat option) \<Rightarrow> llm_service \<Rightarrow> test_case list \<Rightarrow> evaluation_result list
     \<Rightarrow> evaluation_result list \<Rightarrow> world
     \<Rightarrow> evaluation_result list \<times> evaluation_result list \<times> world" where
  "run_tests nearest svc [] results historical_results w = (results, historical_results, w)"
| "run_tests nearest svc (tc # tcs) results historical_results w =
     (case evaluate_single_test nearest svc tc w of
        (result, w') \<Rightarrow>
          run_tests nearest svc tcs (results @ [result]) (historical_results @ [result]) w')"

definition run_full_evaluation ::
  "(rat \<Rightarrow> rat option) \<Rightarrow> llm_service \<Rightarrow> test_case list \<Rightarrow> evaluation_result list \<Rightarrow> world
     \<Rightarrow> evaluation_report \<times> evaluation_result list \<times> world" where
  "run_full_evaluation nearest svc tcs historical_results w =
     (case run_tests nearest svc tcs [] historical_results w of
        (results, historical_results', w') \<Rightarrow>
          (let total = int (length results);
               n_passed = int (length (filter is_acceptable results))
           in (\<lparr>total_tests = total, passed = n_passed, failed = total - n_passed\<rparr>,
               historical_results', w')))"

section \<open>Notions used by the statements\<close>

text \<open>A value has the type its question declares.\<close>

fun value_of_type :: "question_type \<Rightarrow> answer_value \<Rightarrow> bool" where
  "value_of_type Text (VStr s) = True"
| "value_of_type Boolean (VBool b) = True"
| "value_of_type _ _ = False"

text \<open>The block \<open># Ensure answer type matches question type\<close>, written once in
  \<open>_generate_base_answer\<close> and once more in \<open>_refine_answer_with_feedback\<close>, read as a function
  of the decoded answer. The two definitions above carry their own copies; the theorem for
  C2 shows that each computes this function.\<close>

definition coerce_answer :: "llm_service \<Rightarrow> question_type \<Rightarrow> json \<Rightarrow> answer_value" where
  "coerce_answer svc t answer =
     (case t of
        Text \<Rightarrow> VStr (py_str svc answer)
      | Boolean \<Rightarrow>
          (case answer of
             JStr s \<Rightarrow> VBool (lower s \<in> set [''true'', ''yes'', ''1''])
           | _ \<Rightarrow> VBool (truthy answer)))"

text \<open>The calls recorded between two states.\<close>

definition new_steps :: "world \<Rightarrow> world \<Rightarrow> step list" where
  "new_steps w w' = drop (length (steps w)) (steps w')"

text \<open>
  The correctness check in the words of the specification: exact equality, else membership
  in the acceptable variations, else, for two strings, equality as floating-point numbers
  once the units are dropped.
\<close>

definition numerically_equal :: "(rat \<Rightarrow> rat option) \<Rightarrow> string \<Rightarrow> string \<Rightarrow> bool" where
  "numerically_equal nearest a e =
     (\<exists>x y. py_float_of nearest a = Inr x \<and> py_float_of nearest e = Inr y \<and> float_eq x y)"

definition spec_accepts ::
  "(rat \<Rightarrow> rat option) \<Rightarrow> answer_value \<Rightarrow> answer_value \<Rightarrow> answer_value list option \<Rightarrow> bool" where
  "spec_accepts nearest actual expected variations =
     (actual = expected
      \<or> (\<exists>vs. variations = Some vs \<and> actual \<in> set vs)
      \<or> (\<exists>a e. actual = VStr a \<and> expected = VStr e
            \<and> numerically_equal nearest (without_units a) (without_units e)))"

section \<open>A sample run\<close>

text \<open>A patient, a question and a client with four replies, on which the theorems below are
  exercised: the Actor answers \<open>"Yes"\<close>, the Critic scores 0.5 and asks for one improvement,
  the Refiner answers \<open>true\<close>, and the Critic then scores 0.95.\<close>

definition demo_patient :: patient where
  "demo_patient = \<lparr>first_name = ''Test'', last_name = ''Patient2'',
     date_of_birth = ''1990-06-15'', gender = ''Female'',
     prescription = \<lparr>medication = ''Zepbound'', dosage = ''5 mg'',
       frequency = ''once weekly'', duration = ''3 months''\<rparr>,
     visit_notes = [''BMI: 32.9 kg/m2'']\<rparr>"

definition demo_question :: question where
  "demo_question = \<lparr>qtype = Boolean, key = ''bmi_ge30'',
     content = ''Is the BMI at least 30?'', visible_if = None\<rparr>"

definition demo_tape :: "nat \<Rightarrow> error + json" where
  "demo_tape n =
     (if n = 0 then Inr (JObj [(''answer'', JStr ''Yes''), (''reasoning'', JStr ''BMI is 32.9'')])
      else if n = 1 then Inr (JObj [(''confidence_score'', JFloat (Finite 0.5)),
                                    (''improvements'', JArr [JStr ''Cite the visit note''])])
      else if n = 2 then Inr (JObj [(''refined_answer'', JBool True),
                                    (''reasoning'', JStr ''Visit note 1 gives a BMI of 32.9'')])
      else Inr (JObj [(''confidence_score'', JFloat (Finite 0.95)), (''improvements'', JArr [])]))"

definition demo_service :: llm_service where
  "demo_service = \<lparr>client = Some demo_tape, enable_confidence = True,
     enable_actor_critic = True, enable_few_shot = True, enable_reasoning = False,
     now = \<lparr>year = 2024, month = 6, day = 14\<rparr>,
     str_other = (\<lambda>j. ''?''), float_of_str = (\<lambda>s. None)\<rparr>"

definition start :: world where
  "start = \<lparr>calls = 0, steps = []\<rparr>"

text \<open>What the run returns, and the state it ends in.\<close>

definition demo_answer :: answer_with_confidence where
  "demo_answer = \<lparr>awc_question = demo_question, awc_value = VBool True, awc_confidence = 0.95,
     awc_reasoning = Some ''Visit note 1 gives a BMI of 32.9'',
     awc_improvements = Some [''Cite the visit note'']\<rparr>"

definition demo_final :: world where
  "demo_final = \<lparr>calls = 4, steps = [ActorStep, CriticStep, RefinerStep, CriticStep]\<rparr>"

text \<open>A client whose Critic scores exactly 0.8 and still asks for an improvement.\<close>

definition boundary_tape :: "nat \<Rightarrow> error + json" where
  "boundary_tape n =
     (if n = 0 then Inr (JObj [(''answer'', JStr ''Yes''), (''reasoning'', JStr ''BMI is 32.9'')])
      else Inr (JObj [(''confidence_score'', JFloat (Finite 0.8)),
                      (''improvements'', JArr [JStr ''Cite the visit note''])]))"

definition boundary_service :: llm_service where
  "boundary_service = demo_service\<lparr>client := Some boundary_tape\<rparr>"

text \<open>The same service with \<open>ENABLE_ACTOR_CRITIC\<close> switched off.\<close>

definition plain_service :: llm_service where
  "plain_service = demo_service\<lparr>enable_actor_critic := False\<rparr>"

text \<open>A question that is asked only when the first one was answered \<open>false\<close>.\<close>

definition follow_up :: question where
  "follow_up = \<lparr>qtype = Text, key = ''reason'', content = ''Why is the BMI below 30?'',
     visible_if = Some ''{bmi_ge30} = false''\<rparr>"

text \<open>Two test cases: the sample patient and question, and the same with a date of
  birth that \<open>strptime\<close> refuses.\<close>

definition demo_case :: test_case where
  "demo_case = \<lparr>tc_patient = demo_patient, tc_question = demo_question,
     expected_answer = VBool True, acceptable_variations = None,
     tc_reasoning = ''The visit note gives a BMI of 32.9'', tags = [''boolean'', ''bmi'']\<rparr>"

definition broken_case :: test_case where
  "broken_case = demo_case\<lparr>tc_patient := demo_patient\<lparr>date_of_birth := ''15/06/1990''\<rparr>\<rparr>"

section \<open>Properties of the visibility conditions\<close>

lemma contains_sublist: "contains sub s = sublist sub s"
  by (induction s) (auto simp: sublist_Cons_right)

lemma py_split_nonempty: "py_split sep s \<noteq> []"
  by (induction sep s rule: py_split.induct) (auto split: list.splits)

lemma py_split_no_sep: "\<not> contains sep s \<Longrightarrow> py_split sep s = [s]"
  by (induction sep s rule: py_split.induct) auto

lemma py_split_hd_prefix: "py_split sep s = q # qs \<Longrightarrow> prefix q s"
  by (induction sep s arbitrary: q qs rule: py_split.induct) (auto split: if_splits list.splits)

lemma py_split_part_no_sep:
  "sep \<noteq> [] \<Longrightarrow> p \<in> set (py_split sep s) \<Longrightarrow> \<not> contains sep p"
proof (induction sep s arbitrary: p rule: py_split.induct)
  case (1 sep)
  then show ?case by simp
next
  case (2 sep c cs)
  show ?case
  proof (cases "prefix sep (c # cs)")
    case True
    with 2 show ?thesis by auto
  next
    case False
    show ?thesis
    proof (cases "py_split sep cs")
      case Nil
      then show ?thesis using py_split_nonempty [of sep cs] by simp
    next
      case (Cons q qs)
      have pq: "prefix q cs" using Cons by (rule py_split_hd_prefix)
      from False "2.prems" Cons have "p = c # q \<or> p \<in> set qs" by simp
      then show ?thesis
      proof
        assume p: "p = c # q"
        have "\<not> contains sep q" using "2.IH"(2) False "2.prems"(1) Cons by simp
        moreover have "\<not> prefix sep (c # q)"
        proof
          assume "prefix sep (c # q)"
          moreover have "prefix (c # q) (c # cs)" using pq by simp
          ultimately have "prefix sep (c # cs)" by (rule prefix_order.trans)
          with False show False by simp
        qed
        ultimately show ?thesis using p by simp
      next
        assume "p \<in> set qs"
        then show ?thesis using "2.IH"(2) False "2.prems"(1) Cons by simp
      qed
    qed
  qed
qed

lemma strip_decomp: "\<exists>pre post. s = pre @ strip s @ post"
proof -
  define t where "t = dropWhile is_space s"
  have 1: "s = takeWhile is_space s @ t"
    by (simp add: t_def)
  have "rev (rev t) = rev (dropWhile is_space (rev t)) @ rev (takeWhile is_space (rev t))"
    by (metis rev_append takeWhile_dropWhile_id)
  then have 2: "t = strip s @ rev (takeWhile is_space (rev t))"
    by (simp add: strip_def t_def)
  from 1 2 have "s = takeWhile is_space s @ strip s @ rev (takeWhile is_space (rev t))"
    by simp
  then show ?thesis by blast
qed

lemma contains_strip: "contains sub (strip s) \<Longrightarrow> contains sub s"
proof -
  assume "contains sub (strip s)"
  then obtain ps ss where a: "strip s = ps @ sub @ ss"
    by (auto simp: contains_sublist sublist_def)
  obtain pre post where b: "s = pre @ strip s @ post"
    using strip_decomp by blast
  have "s = (pre @ ps) @ sub @ (ss @ post)"
    by (subst b) (simp add: a)
  then show ?thesis
    unfolding contains_sublist sublist_def by blast
qed

lemma dropWhile_id: "xs = [] \<or> \<not> P (hd xs) \<Longrightarrow> dropWhile P xs = xs"
  by (cases xs) auto

lemma strip_fixed: "s = [] \<or> (\<not> is_space (hd s) \<and> \<not> is_space (last s)) \<Longrightarrow> strip s = s"
proof (cases "s = []")
  case True
  then show ?thesis by (simp add: strip_def)
next
  case False
  assume "s = [] \<or> (\<not> is_space (hd s) \<and> \<not> is_space (last s))"
  with False have h: "\<not> is_space (hd s)" and l: "\<not> is_space (last s)"
    by simp_all
  have 1: "dropWhile is_space s = s"
    using h by (simp add: dropWhile_id)
  have "hd (rev s) = last s"
    using False by (simp add: hd_rev)
  then have "dropWhile is_space (rev s) = rev s"
    using l by (simp add: dropWhile_id)
  with 1 show ?thesis
    by (simp add: strip_def)
qed

lemma strip_ends: "strip s = [] \<or> (\<not> is_space (hd (strip s)) \<and> \<not> is_space (last (strip s)))"
proof (cases "strip s = []")
  case True
  then show ?thesis by simp
next
  case False
  define t where "t = dropWhile is_space s"
  define u where "u = dropWhile is_space (rev t)"
  have su: "strip s = rev u" by (simp add: strip_def t_def u_def)
  with False have u: "u \<noteq> []" by simp
  then have "\<not> is_space (hd u)" unfolding u_def by (rule hd_dropWhile)
  then have l: "\<not> is_space (last (strip s))" using su u by (simp add: last_rev)
  from u have tne: "t \<noteq> []" unfolding u_def by auto
  then have ht: "\<not> is_space (hd t)" unfolding t_def by (rule hd_dropWhile)
  obtain pre where "rev t = pre @ u" unfolding u_def
    by (metis takeWhile_dropWhile_id)
  then have "t = rev u @ rev pre" by (metis rev_append rev_rev_ident)
  then have "hd t = hd (rev u)" using u by simp
  with ht su have "\<not> is_space (hd (strip s))" by simp
  with l show ?thesis by simp
qed

lemma strip_idem: "strip (strip s) = strip s"
  using strip_ends [of s] by (rule strip_fixed)


lemma match_clause_Nil: "match_clause [] = None"
  by (simp add: match_clause_def)

lemma strip_Nil: "strip [] = []"
  by (simp add: strip_def)

lemma evaluate_single:
  assumes "\<not> contains '' and '' s"
  shows "evaluate_condition s answers = clause_holds (strip s) answers"
proof (cases "s = []")
  case True
  then show ?thesis
    by (simp add: evaluate_condition.simps [of "[]"] clause_holds_def strip_Nil match_clause_Nil)
next
  case False
  with assms show ?thesis
    by (simp add: evaluate_condition.simps [of s] clause_holds_def split: option.splits)
qed

lemma evaluate_condition_flat:
  "evaluate_condition c answers =
     (c = [] \<or> list_all (\<lambda>p. clause_holds (strip p) answers) (py_split '' and '' c))"
proof (cases "c = []")
  case True
  then show ?thesis
    by (simp add: evaluate_condition.simps [of "[]"])
next
  case False
  show ?thesis
  proof (cases "contains '' and '' c")
    case True
    have "evaluate_condition (strip p) answers = clause_holds (strip p) answers"
      if "p \<in> set (py_split '' and '' c)" for p
    proof -
      have "\<not> contains '' and '' p"
        using that by (intro py_split_part_no_sep [of "'' and ''" p c]) simp_all
      then have "\<not> contains '' and '' (strip p)"
        using contains_strip by blast
      then show ?thesis
        by (simp add: evaluate_single strip_idem)
    qed
    then have "list_all (\<lambda>p. evaluate_condition (strip p) answers) (py_split '' and '' c)
      = list_all (\<lambda>p. clause_holds (strip p) answers) (py_split '' and '' c)"
      by (simp add: list_all_iff)
    with True False show ?thesis
      by (simp add: evaluate_condition.simps [of c])
  next
    case nc: False
    then have "py_split '' and '' c = [c]"
      by (rule py_split_no_sep)
    with nc False show ?thesis
      by (simp add: evaluate_single)
  qed
qed









text \<open>
  C9: a clause that the pattern \<open>{key} = value\<close> does not match (a bare word, a brace that is
  not closed, an operator other than \<open>=\<close>) evaluates to true, alone or as a piece of a
  conjunction, and a question whose condition consists of such clauses is not skipped.
\<close>

theorem unmatched_clause_is_true:
  "(condition \<noteq> [] \<and> \<not> contains '' and '' condition \<and> match_clause (strip condition) = None
      \<longrightarrow> evaluate_condition condition answers)
   \<and> (p \<in> set (py_split '' and '' condition) \<and> match_clause (strip p) = None
      \<longrightarrow> evaluate_condition (strip p) answers)
   \<and> (visible_if q = Some condition
        \<and> list_all (\<lambda>p. match_clause (strip p) = None) (py_split '' and '' condition)
      \<longrightarrow> evaluate_condition condition answers \<and> \<not> skipped q answers)
   \<and> match_clause ''eligible'' = None
   \<and> match_clause ''{bmi = high'' = None
   \<and> match_clause ''{age} > 65'' = None
   \<and> match_clause ''{age} != 65'' = None"
proof (intro conjI impI)
  assume "condition \<noteq> [] \<and> \<not> contains '' and '' condition
    \<and> match_clause (strip condition) = None"
  then show "evaluate_condition condition answers"
    by (simp add: evaluate_single clause_holds_def)
next
  assume h: "p \<in> set (py_split '' and '' condition) \<and> match_clause (strip p) = None"
  then have "\<not> contains '' and '' p"
    by (intro py_split_part_no_sep [of "'' and ''" p condition]) simp_all
  then have "\<not> contains '' and '' (strip p)"
    using contains_strip by blast
  then have "evaluate_condition (strip p) answers = clause_holds (strip p) answers"
    by (simp add: evaluate_single strip_idem)
  with h show "evaluate_condition (strip p) answers"
    by (simp add: clause_holds_def)
next
  assume h: "visible_if q = Some condition
    \<and> list_all (\<lambda>p. match_clause (strip p) = None) (py_split '' and '' condition)"
  then have "list_all (\<lambda>p. clause_holds (strip p) answers) (py_split '' and '' condition)"
    by (simp add: list_all_iff clause_holds_def)
  then show e: "evaluate_condition condition answers"
    by (simp add: evaluate_condition_flat)
  with h show "\<not> skipped q answers"
    by (simp add: skipped_def)
qed (simp_all add: match_clause_def is_space_def)

theorem unmatched_clause_is_true_witness:
  "evaluate_condition ''{age} > 65'' []
   \<and> evaluate_condition (strip ''eligible'') []
   \<and> \<not> skipped \<lparr>qtype = Text, key = ''dose'', content = ''Dose?'',
         visible_if = Some ''eligible and {age} > 65''\<rparr> []"
  using unmatched_clause_is_true [of "''{age} > 65''" "[]" "''eligible''"
      "\<lparr>qtype = Text, key = ''dose'', content = ''Dose?'', visible_if = Some ''{age} > 65''\<rparr>"]
    unmatched_clause_is_true [of "''eligible and {age} > 65''" "[]" "''eligible''"
      "\<lparr>qtype = Text, key = ''dose'', content = ''Dose?'',
         visible_if = Some ''eligible and {age} > 65''\<rparr>"]
  by (simp add: strip_def is_space_def match_clause_def)

section \<open>Properties of the age computation\<close>

lemmas ev = strptime_ymd_def calculate_age_def md_earlier_def days_in_month_def is_leap_def
  day_token_def month_token_def int_of_digits_def digit_val_def is_digit_def Let_def

lemma dob_ex: "strptime_ymd ''1990-06-15'' = Inr \<lparr>year = 1990, month = 6, day = 15\<rparr>"
  by (simp add: ev)



section \<open>Properties of the answer pipeline\<close>

lemma actor_steps:
  "generate_base_answer svc ctx q w = (res, w') \<Longrightarrow> steps w' = steps w @ [ActorStep]"
  by (auto simp: generate_base_answer_def enter_def completion_def Let_def
      split: option.splits sum.splits prod.splits)

lemma critic_steps:
  "critic_evaluate_answer svc ctx q a r w = (res, w') \<Longrightarrow> steps w' = steps w @ [CriticStep]"
  by (auto simp: critic_evaluate_answer_def enter_def completion_def Let_def
      split: option.splits sum.splits prod.splits if_splits)

lemma refiner_steps:
  "refine_answer_with_feedback svc ctx q a imps w = (res, w') \<Longrightarrow> steps w' = steps w @ [RefinerStep]"
  by (auto simp: refine_answer_with_feedback_def enter_def completion_def Let_def
      split: option.splits sum.splits prod.splits if_splits)

lemma pipeline_steps:
  "generate_answer_with_confidence svc p q prev w = (res, w') \<Longrightarrow>
   \<exists>ss \<in> set [[], [ActorStep], [ActorStep, CriticStep], [ActorStep, CriticStep, RefinerStep],
       [ActorStep, CriticStep, RefinerStep, CriticStep]]. steps w' = steps w @ ss"
  unfolding generate_answer_with_confidence_def Let_def
  by (auto split: sum.splits prod.splits if_splits
      dest!: actor_steps critic_steps refiner_steps)

lemma demo_context: "\<exists>c. extract_patient_context demo_service demo_patient = Inr c"
  by (simp add: extract_patient_context_def demo_service_def demo_patient_def calculate_age_def dob_ex)

lemma demo_run:
  "generate_answer_with_confidence demo_service demo_patient demo_question None start =
     (Inr demo_answer, demo_final)"
  by (simp add: demo_answer_def demo_final_def generate_answer_with_confidence_def extract_patient_context_def calculate_age_def dob_ex
    demo_service_def demo_patient_def demo_question_def demo_tape_def start_def
    generate_base_answer_def critic_evaluate_answer_def refine_answer_with_feedback_def
    with_previous_answers_def make_answer_def enter_def completion_def
    lower_def lower_char_def upper_letters_def lower_letters_def Let_def)

lemma validate_confidence_range:
  "validate_confidence svc c = Inr x \<Longrightarrow> 0 \<le> x \<and> x \<le> 1"
  by (cases c) (auto split: if_splits py_float.splits option.splits)

lemma make_answer_confidence:
  "make_answer svc q v c r i = Inr a \<Longrightarrow> 0 \<le> awc_confidence a \<and> awc_confidence a \<le> 1"
  by (auto simp: make_answer_def split: sum.splits dest: validate_confidence_range)

lemma make_answer_value:
  "make_answer svc q v c r i = Inr a \<Longrightarrow> awc_value a = v \<and> awc_question a = q"
  by (auto simp: make_answer_def split: sum.splits)

lemma pipeline_result_made:
  "generate_answer_with_confidence svc p q prev w = (Inr a, w') \<Longrightarrow>
     \<exists>v c r i. make_answer svc q v c r i = Inr a"
  unfolding generate_answer_with_confidence_def Let_def
  by (auto split: sum.splits prod.splits if_splits)

text \<open>
  C5: every answer the single-question pipeline returns carries a confidence between 0
  and 1, whether it comes from the first pass or from the refined one; a score outside
  that range makes the constructor of \<open>AnswerWithConfidence\<close> raise instead.
\<close>

theorem confidence_in_unit_interval:
  "generate_answer_with_confidence svc p q prev w = (Inr a, w') \<Longrightarrow>
     0 \<le> awc_confidence a \<and> awc_confidence a \<le> 1"
proof -
  assume "generate_answer_with_confidence svc p q prev w = (Inr a, w')"
  then obtain v c r i where "make_answer svc q v c r i = Inr a"
    using pipeline_result_made by blast
  then show ?thesis
    by (rule make_answer_confidence)
qed

theorem confidence_in_unit_interval_witness:
  "\<exists>a w'. generate_answer_with_confidence demo_service demo_patient demo_question None start
            = (Inr a, w')
     \<and> 0 \<le> awc_confidence a \<and> awc_confidence a \<le> 1"
  using confidence_in_unit_interval [OF demo_run] demo_run
  by blast

lemma py_str_flag [simp]:
  "py_str (svc\<lparr>enable_confidence := b\<rparr>) x = py_str svc x"
  by (cases x) simp_all

lemma actor_flag [simp]:
  "generate_base_answer (svc\<lparr>enable_confidence := b\<rparr>) ctx q w = generate_base_answer svc ctx q w"
  by (simp add: generate_base_answer_def Let_def
      split: option.splits prod.splits sum.splits question_type.splits)

lemma critic_flag [simp]:
  "critic_evaluate_answer (svc\<lparr>enable_confidence := b\<rparr>) ctx q a r w
     = critic_evaluate_answer svc ctx q a r w"
  by (simp add: critic_evaluate_answer_def)

lemma refiner_flag [simp]:
  "refine_answer_with_feedback (svc\<lparr>enable_confidence := b\<rparr>) ctx q a i w
     = refine_answer_with_feedback svc ctx q a i w"
  by (simp add: refine_answer_with_feedback_def Let_def
      split: option.splits prod.splits sum.splits question_type.splits)

lemma context_flag [simp]:
  "extract_patient_context (svc\<lparr>enable_confidence := b\<rparr>) p = extract_patient_context svc p"
  by (simp add: extract_patient_context_def)

lemma validate_confidence_flag [simp]:
  "validate_confidence (svc\<lparr>enable_confidence := b\<rparr>) c = validate_confidence svc c"
  by (cases c) simp_all

lemma make_answer_flag [simp]:
  "make_answer (svc\<lparr>enable_confidence := b\<rparr>) q v c r i = make_answer svc q v c r i"
  by (simp add: make_answer_def)

lemma make_answer_one:
  "make_answer svc q v c r i = Inr a \<Longrightarrow>
     make_answer svc q v (JFloat (Finite 1)) r i = Inr (a\<lparr>awc_confidence := 1\<rparr>)"
  by (auto simp: make_answer_def split: sum.splits)

lemma make_answer_one_confidence:
  "make_answer svc q v (JFloat (Finite 1)) r i = Inr a \<Longrightarrow> awc_confidence a = 1"
  by (auto simp: make_answer_def split: sum.splits)

text \<open>
  C10: with \<open>ENABLE_CONFIDENCE_SCORES\<close> off, every returned answer has confidence exactly 1;
  the flag changes nothing else: the requests sent and the steps taken are those of the
  run with the flag on, and whatever that run returns is returned with its confidence
  replaced by 1.
\<close>

theorem confidence_flag_disabled:
  "(\<not> enable_confidence svc
      \<and> generate_answer_with_confidence svc p q prev w = (Inr a, w')
     \<longrightarrow> awc_confidence a = 1)
   \<and> snd (generate_answer_with_confidence (svc\<lparr>enable_confidence := False\<rparr>) p q prev w)
       = snd (generate_answer_with_confidence (svc\<lparr>enable_confidence := True\<rparr>) p q prev w)
   \<and> (generate_answer_with_confidence (svc\<lparr>enable_confidence := True\<rparr>) p q prev w = (Inr b, w')
     \<longrightarrow> generate_answer_with_confidence (svc\<lparr>enable_confidence := False\<rparr>) p q prev w
           = (Inr (b\<lparr>awc_confidence := 1\<rparr>), w'))"
proof (intro conjI impI)
  assume "\<not> enable_confidence svc
      \<and> generate_answer_with_confidence svc p q prev w = (Inr a, w')"
  then show "awc_confidence a = 1"
    unfolding generate_answer_with_confidence_def Let_def
    by (auto split: sum.splits prod.splits if_splits dest: make_answer_one_confidence)
next
  show "snd (generate_answer_with_confidence (svc\<lparr>enable_confidence := False\<rparr>) p q prev w)
       = snd (generate_answer_with_confidence (svc\<lparr>enable_confidence := True\<rparr>) p q prev w)"
    unfolding generate_answer_with_confidence_def Let_def
    by (auto split: sum.splits prod.splits)
next
  assume "generate_answer_with_confidence (svc\<lparr>enable_confidence := True\<rparr>) p q prev w = (Inr b, w')"
  then show "generate_answer_with_confidence (svc\<lparr>enable_confidence := False\<rparr>) p q prev w
           = (Inr (b\<lparr>awc_confidence := 1\<rparr>), w')"
    unfolding generate_answer_with_confidence_def Let_def
    by (auto split: sum.splits prod.splits if_splits dest: make_answer_one)
qed

theorem confidence_flag_disabled_witness:
  "generate_answer_with_confidence (demo_service\<lparr>enable_confidence := False\<rparr>)
       demo_patient demo_question None start
     = (Inr (demo_answer\<lparr>awc_confidence := 1\<rparr>), demo_final)
   \<and> awc_confidence (demo_answer\<lparr>awc_confidence := 1\<rparr>) = 1"
proof -
  have on: "demo_service\<lparr>enable_confidence := True\<rparr> = demo_service"
    by (simp add: demo_service_def)
  have off: "\<not> enable_confidence (demo_service\<lparr>enable_confidence := False\<rparr>)"
    by simp
  from confidence_flag_disabled [where svc = demo_service and p = demo_patient
      and q = demo_question and prev = None and w = start
      and b = demo_answer and w' = demo_final] demo_run on
  have run: "generate_answer_with_confidence
       (demo_service\<lparr>enable_confidence := False\<rparr>) demo_patient demo_question None start
     = (Inr (demo_answer\<lparr>awc_confidence := 1\<rparr>), demo_final)"
    by simp
  from confidence_flag_disabled [where svc = "demo_service\<lparr>enable_confidence := False\<rparr>"
      and p = demo_patient and q = demo_question and prev = None and w = start
      and a = "demo_answer\<lparr>awc_confidence := 1\<rparr>" and w' = demo_final] off run
  show ?thesis
    by simp
qed

lemma coerce_answer_typed: "value_of_type t (coerce_answer svc t x)"
  by (cases t; cases x) (simp_all add: coerce_answer_def)

lemma simulate_answer_typed: "value_of_type (qtype q) (fst (simulate_answer ctx q))"
  by (cases "qtype q") (simp_all add: simulate_answer_def)

lemma actor_coerces:
  "client svc = Some tape \<Longrightarrow> tape (calls w) = Inr result \<Longrightarrow> subscript result ''answer'' = Inr x
     \<Longrightarrow> generate_base_answer svc ctx q w = (Inr (v, r), w') \<Longrightarrow> v = coerce_answer svc (qtype q) x"
  by (auto simp: generate_base_answer_def completion_def enter_def coerce_answer_def Let_def
      split: sum.splits)

lemma refiner_coerces:
  "client svc = Some tape \<Longrightarrow> tape (calls w) = Inr result
     \<Longrightarrow> subscript result ''refined_answer'' = Inr x
     \<Longrightarrow> refine_answer_with_feedback svc ctx q v0 imps w = (Inr (v, r), w')
     \<Longrightarrow> v = coerce_answer svc (qtype q) x"
  by (auto simp: refine_answer_with_feedback_def completion_def enter_def coerce_answer_def Let_def
      split: sum.splits if_splits)

lemma actor_typed:
  assumes "generate_base_answer svc ctx q w = (Inr (v, r), w')"
  shows "value_of_type (qtype q) v"
proof (cases "client svc")
  case None
  with assms have "v = fst (simulate_answer ctx q)"
    by (auto simp: generate_base_answer_def Let_def)
  then show ?thesis
    by (simp add: simulate_answer_typed)
next
  case (Some tape)
  with assms obtain result x where "tape (calls w) = Inr result" "subscript result ''answer'' = Inr x"
    by (auto simp: generate_base_answer_def completion_def enter_def Let_def split: sum.splits)
  with Some assms have "v = coerce_answer svc (qtype q) x"
    using actor_coerces by blast
  then show ?thesis
    by (simp add: coerce_answer_typed)
qed

lemma refiner_typed:
  assumes "value_of_type (qtype q) v0"
    and "refine_answer_with_feedback svc ctx q v0 imps w = (Inr (v, r), w')"
  shows "value_of_type (qtype q) v"
proof (cases "client svc")
  case None
  with assms(2) have "v = v0"
    by (auto simp: refine_answer_with_feedback_def Let_def)
  with assms(1) show ?thesis
    by simp
next
  case (Some tape)
  with assms(2) obtain result x where "tape (calls w) = Inr result"
      "subscript result ''refined_answer'' = Inr x"
    by (auto simp: refine_answer_with_feedback_def completion_def enter_def Let_def
        split: sum.splits if_splits)
  with Some assms(2) have "v = coerce_answer svc (qtype q) x"
    using refiner_coerces by blast
  then show ?thesis
    by (simp add: coerce_answer_typed)
qed

lemma pipeline_typed:
  assumes "generate_answer_with_confidence svc p q prev w = (Inr a, w')"
  shows "value_of_type (qtype q) (awc_value a)"
  using assms unfolding generate_answer_with_confidence_def Let_def
  by (auto split: sum.splits prod.splits if_splits
      dest!: make_answer_value dest: actor_typed refiner_typed)

text \<open>
  C2: the value of a \<open>text\<close> question is a string and that of a \<open>boolean\<close> question a
  boolean, after the Actor, after the Refiner and in the answer returned; the Actor and the
  Refiner apply the same coercion to the decoded answer, which sends a string to the truth
  of its lower-case form being one of \<open>"true"\<close>, \<open>"yes"\<close>, \<open>"1"\<close>.
\<close>

theorem answer_value_typed:
  "(generate_base_answer svc ctx q w = (Inr (v, r), w') \<longrightarrow> value_of_type (qtype q) v)
   \<and> (value_of_type (qtype q) v0
        \<and> refine_answer_with_feedback svc ctx q v0 imps w = (Inr (v, r), w')
      \<longrightarrow> value_of_type (qtype q) v)
   \<and> (generate_answer_with_confidence svc p q prev w = (Inr a, w')
      \<longrightarrow> value_of_type (qtype q) (awc_value a))
   \<and> (client svc = Some tape \<and> tape (calls w) = Inr result
        \<and> subscript result ''answer'' = Inr x
        \<and> generate_base_answer svc ctx q w = (Inr (v, r), w')
      \<longrightarrow> v = coerce_answer svc (qtype q) x)
   \<and> (client svc = Some tape \<and> tape (calls w) = Inr result
        \<and> subscript result ''refined_answer'' = Inr x
        \<and> refine_answer_with_feedback svc ctx q v0 imps w = (Inr (v, r), w')
      \<longrightarrow> v = coerce_answer svc (qtype q) x)
   \<and> coerce_answer svc Boolean (JStr s) = VBool (lower s \<in> {''true'', ''yes'', ''1''})
   \<and> coerce_answer svc Boolean (JBool b) = VBool b
   \<and> coerce_answer svc Text (JStr s) = VStr s
   \<and> (\<exists>t. coerce_answer svc Text x = VStr t)"
proof (intro conjI impI)
  assume "generate_base_answer svc ctx q w = (Inr (v, r), w')"
  then show "value_of_type (qtype q) v"
    by (rule actor_typed)
next
  assume "value_of_type (qtype q) v0
    \<and> refine_answer_with_feedback svc ctx q v0 imps w = (Inr (v, r), w')"
  then show "value_of_type (qtype q) v"
    using refiner_typed by blast
next
  assume "generate_answer_with_confidence svc p q prev w = (Inr a, w')"
  then show "value_of_type (qtype q) (awc_value a)"
    by (rule pipeline_typed)
next
  assume "client svc = Some tape \<and> tape (calls w) = Inr result
        \<and> subscript result ''answer'' = Inr x
        \<and> generate_base_answer svc ctx q w = (Inr (v, r), w')"
  then show "v = coerce_answer svc (qtype q) x"
    using actor_coerces by blast
next
  assume "client svc = Some tape \<and> tape (calls w) = Inr result
        \<and> subscript result ''refined_answer'' = Inr x
        \<and> refine_answer_with_feedback svc ctx q v0 imps w = (Inr (v, r), w')"
  then show "v = coerce_answer svc (qtype q) x"
    using refiner_coerces by blast
qed (simp_all add: coerce_answer_def)

lemma demo_actor:
  "generate_base_answer demo_service ctx demo_question start
     = (Inr (VBool True, JStr ''BMI is 32.9''), \<lparr>calls = 1, steps = [ActorStep]\<rparr>)"
  by (simp add: generate_base_answer_def demo_service_def demo_question_def demo_tape_def
      start_def enter_def completion_def lower_def lower_char_def upper_letters_def
      lower_letters_def)

lemma demo_refiner:
  "refine_answer_with_feedback demo_service ctx demo_question (VBool True)
       (JArr [JStr ''Cite the visit note'']) \<lparr>calls = 2, steps = [ActorStep, CriticStep]\<rparr>
     = (Inr (VBool True, JStr ''Visit note 1 gives a BMI of 32.9''),
        \<lparr>calls = 3, steps = [ActorStep, CriticStep, RefinerStep]\<rparr>)"
  by (simp add: refine_answer_with_feedback_def demo_service_def demo_question_def demo_tape_def
      enter_def completion_def)

theorem answer_value_typed_witness:
  "value_of_type (qtype demo_question) (VBool True)
   \<and> value_of_type (qtype demo_question) (awc_value demo_answer)
   \<and> VBool True = coerce_answer demo_service (qtype demo_question) (JStr ''Yes'')
   \<and> VBool True = coerce_answer demo_service (qtype demo_question) (JBool True)"
proof -
  have c: "client demo_service = Some demo_tape"
    by (simp add: demo_service_def)
  have t0: "demo_tape (calls start) = Inr (JObj [(''answer'', JStr ''Yes''),
      (''reasoning'', JStr ''BMI is 32.9'')])"
    by (simp add: demo_tape_def start_def)
  have t2: "demo_tape (calls \<lparr>calls = 2, steps = [ActorStep, CriticStep]\<rparr>)
      = Inr (JObj [(''refined_answer'', JBool True),
                   (''reasoning'', JStr ''Visit note 1 gives a BMI of 32.9'')])"
    by (simp add: demo_tape_def)
  have s0: "subscript (JObj [(''answer'', JStr ''Yes''), (''reasoning'', JStr ''BMI is 32.9'')])
      ''answer'' = Inr (JStr ''Yes'')"
    by simp
  have s2: "subscript (JObj [(''refined_answer'', JBool True),
      (''reasoning'', JStr ''Visit note 1 gives a BMI of 32.9'')]) ''refined_answer''
      = Inr (JBool True)"
    by simp
  from answer_value_typed [where svc = demo_service and q = demo_question and w = start
      and ctx = "[]" and v = "VBool True" and r = "JStr ''BMI is 32.9''"
      and w' = "\<lparr>calls = 1, steps = [ActorStep]\<rparr>" and tape = demo_tape
      and result = "JObj [(''answer'', JStr ''Yes''), (''reasoning'', JStr ''BMI is 32.9'')]"
      and x = "JStr ''Yes''"] c t0 s0 demo_actor [of "[]"]
  have 1: "value_of_type (qtype demo_question) (VBool True)
      \<and> VBool True = coerce_answer demo_service (qtype demo_question) (JStr ''Yes'')"
    by blast
  from answer_value_typed [where svc = demo_service and q = demo_question and ctx = "[]"
      and w = "\<lparr>calls = 2, steps = [ActorStep, CriticStep]\<rparr>"
      and v0 = "VBool True" and imps = "JArr [JStr ''Cite the visit note'']"
      and v = "VBool True" and r = "JStr ''Visit note 1 gives a BMI of 32.9''"
      and w' = "\<lparr>calls = 3, steps = [ActorStep, CriticStep, RefinerStep]\<rparr>" and tape = demo_tape
      and result = "JObj [(''refined_answer'', JBool True),
                   (''reasoning'', JStr ''Visit note 1 gives a BMI of 32.9'')]"
      and x = "JBool True"] c t2 s2 demo_refiner [of "[]"] 1
  have 2: "VBool True = coerce_answer demo_service (qtype demo_question) (JBool True)"
    by blast
  from answer_value_typed [where svc = demo_service and q = demo_question and w = start
      and p = demo_patient and prev = None and a = demo_answer and w' = demo_final] demo_run
  have 3: "value_of_type (qtype demo_question) (awc_value demo_answer)"
    by blast
  from 1 2 3 show ?thesis
    by blast
qed

lemma new_steps_append: "steps w' = steps w @ ss \<Longrightarrow> new_steps w w' = ss"
  by (simp add: new_steps_def)

lemma critic_disabled:
  "\<not> enable_actor_critic svc \<Longrightarrow>
     critic_evaluate_answer svc ctx q v r w = (Inr (JFloat (Finite 0.9), JArr []), enter CriticStep w)"
  by (simp add: critic_evaluate_answer_def)

lemma refined_run:
  assumes "extract_patient_context svc p = Inr base"
    and "generate_base_answer svc (with_previous_answers base prev) q w = (Inr (v, r), w1)"
    and "critic_evaluate_answer svc (with_previous_answers base prev) q v r w1 = (Inr (conf, imps), w2)"
    and "less_than_0_8 conf = Inr True" and "truthy imps" and "enable_actor_critic svc"
    and "refine_answer_with_feedback svc (with_previous_answers base prev) q v imps w2 = (rr, w3)"
  shows "generate_answer_with_confidence svc p q prev w =
     (case rr of
        Inl e \<Rightarrow> (Inl e, w3)
      | Inr (v', r') \<Rightarrow>
          (case critic_evaluate_answer svc (with_previous_answers base prev) q v' r' w3 of
             (Inl e, w4) \<Rightarrow> (Inl e, w4)
           | (Inr (conf', imps'), w4) \<Rightarrow>
               (make_answer svc q v' (if enable_confidence svc then conf' else JFloat (Finite 1))
                  r' imps, w4)))"
  using assms unfolding generate_answer_with_confidence_def Let_def
  by (auto split: sum.splits prod.splits)

lemma unrefined_run:
  assumes "extract_patient_context svc p = Inr base"
    and "generate_base_answer svc (with_previous_answers base prev) q w = (Inr (v, r), w1)"
    and "critic_evaluate_answer svc (with_previous_answers base prev) q v r w1 = (Inr (conf, imps), w2)"
    and "less_than_0_8 conf = Inr low" and "\<not> (low \<and> truthy imps \<and> enable_actor_critic svc)"
  shows "generate_answer_with_confidence svc p q prev w =
     (make_answer svc q v (if enable_confidence svc then conf else JFloat (Finite 1)) r
        (if truthy imps then imps else JNull), w2)"
  using assms unfolding generate_answer_with_confidence_def Let_def
  by (auto split: sum.splits prod.splits)

lemma refiner_once:
  "count_list (new_steps w (snd (generate_answer_with_confidence svc p q prev w))) RefinerStep \<le> 1"
proof -
  obtain res w' where run: "generate_answer_with_confidence svc p q prev w = (res, w')"
    by (cases "generate_answer_with_confidence svc p q prev w")
  from pipeline_steps [OF run] obtain ss where
    "ss \<in> set [[], [ActorStep], [ActorStep, CriticStep], [ActorStep, CriticStep, RefinerStep],
       [ActorStep, CriticStep, RefinerStep, CriticStep]]" and "steps w' = steps w @ ss"
    by blast
  then have "new_steps w w' = ss" and "count_list ss RefinerStep \<le> 1"
    by (auto simp: new_steps_append)
  with run show ?thesis
    by simp
qed

lemma refined_steps:
  assumes "extract_patient_context svc p = Inr base"
    and "generate_base_answer svc (with_previous_answers base prev) q w = (Inr (v, r), w1)"
    and "critic_evaluate_answer svc (with_previous_answers base prev) q v r w1 = (Inr (conf, imps), w2)"
    and "less_than_0_8 conf = Inr True" and "truthy imps" and "enable_actor_critic svc"
    and "generate_answer_with_confidence svc p q prev w = (res, w')"
  shows "new_steps w w' = [ActorStep, CriticStep, RefinerStep]
       \<or> new_steps w w' = [ActorStep, CriticStep, RefinerStep, CriticStep]"
proof -
  let ?ctx = "with_previous_answers base prev"
  obtain rr w3 where rf: "refine_answer_with_feedback svc ?ctx q v imps w2 = (rr, w3)"
    by (cases "refine_answer_with_feedback svc ?ctx q v imps w2")
  have s1: "steps w1 = steps w @ [ActorStep]"
    using assms(2) by (rule actor_steps)
  have s2: "steps w2 = steps w1 @ [CriticStep]"
    using assms(3) by (rule critic_steps)
  have s3: "steps w3 = steps w2 @ [RefinerStep]"
    using rf by (rule refiner_steps)
  note run = refined_run [OF assms(1-6) rf]
  show ?thesis
  proof (cases rr)
    case (Inl e)
    with run assms(7) have "w' = w3"
      by simp
    with s1 s2 s3 show ?thesis
      by (simp add: new_steps_def)
  next
    case (Inr vr)
    obtain v' r' where vr: "vr = (v', r')"
      by (cases vr)
    obtain rc w4 where cr: "critic_evaluate_answer svc ?ctx q v' r' w3 = (rc, w4)"
      by (cases "critic_evaluate_answer svc ?ctx q v' r' w3")
    have s4: "steps w4 = steps w3 @ [CriticStep]"
      using cr by (rule critic_steps)
    from run assms(7) Inr vr cr have "w' = w4"
      by (auto split: sum.splits)
    with s1 s2 s3 s4 show ?thesis
      by (simp add: new_steps_def)
  qed
qed

lemma unrefined_steps:
  assumes "generate_base_answer svc ctx q w = (Inr (v, r), w1)"
    and "critic_evaluate_answer svc ctx q v r w1 = (Inr (conf, imps), w2)"
  shows "new_steps w w2 = [ActorStep, CriticStep]"
proof -
  have "steps w1 = steps w @ [ActorStep]"
    using assms(1) by (rule actor_steps)
  moreover have "steps w2 = steps w1 @ [CriticStep]"
    using assms(2) by (rule critic_steps)
  ultimately show ?thesis
    by (simp add: new_steps_def)
qed

lemma refinement_after_critic:
  "(extract_patient_context svc p = Inr base
      \<and> generate_base_answer svc (with_previous_answers base prev) q w = (Inr (v, r), w1)
      \<and> critic_evaluate_answer svc (with_previous_answers base prev) q v r w1
          = (Inr (conf, imps), w2)
      \<and> less_than_0_8 conf = Inr low
      \<and> generate_answer_with_confidence svc p q prev w = (res, w')
    \<longrightarrow> (RefinerStep \<in> set (new_steps w w') \<longleftrightarrow> low \<and> truthy imps \<and> enable_actor_critic svc)
      \<and> (\<not> (low \<and> truthy imps \<and> enable_actor_critic svc) \<longrightarrow>
           new_steps w w' = [ActorStep, CriticStep]
           \<and> res = make_answer svc q v (if enable_confidence svc then conf else JFloat (Finite 1))
                   r (if truthy imps then imps else JNull))
      \<and> (low \<and> truthy imps \<and> enable_actor_critic svc \<longrightarrow>
           (\<forall>v' r' w3 conf' imps' w4.
              refine_answer_with_feedback svc (with_previous_answers base prev) q v imps w2
                = (Inr (v', r'), w3)
              \<and> critic_evaluate_answer svc (with_previous_answers base prev) q v' r' w3
                = (Inr (conf', imps'), w4)
             \<longrightarrow> new_steps w w' = [ActorStep, CriticStep, RefinerStep, CriticStep]
                \<and> res = make_answer svc q v'
                          (if enable_confidence svc then conf' else JFloat (Finite 1)) r' imps)))
   \<and> count_list (new_steps w (snd (generate_answer_with_confidence svc p q prev w))) RefinerStep \<le> 1
   \<and> (\<not> enable_actor_critic svc \<and> extract_patient_context svc p = Inr base
        \<and> generate_base_answer svc (with_previous_answers base prev) q w = (Inr (v, r), w1)
        \<and> generate_answer_with_confidence svc p q prev w = (res, w')
      \<longrightarrow> new_steps w w' = [ActorStep, CriticStep]
         \<and> res = make_answer svc q v
                  (JFloat (Finite (if enable_confidence svc then 0.9 else 1))) r JNull
         \<and> (\<forall>a. res = Inr a \<longrightarrow> awc_value a = v))
   \<and> truthy (JArr xs) = (xs \<noteq> [])"
proof (intro conjI impI)
  let ?ctx = "with_previous_answers base prev"
  let ?cond = "low \<and> truthy imps \<and> enable_actor_critic svc"
  assume h: "extract_patient_context svc p = Inr base
      \<and> generate_base_answer svc ?ctx q w = (Inr (v, r), w1)
      \<and> critic_evaluate_answer svc ?ctx q v r w1 = (Inr (conf, imps), w2)
      \<and> less_than_0_8 conf = Inr low
      \<and> generate_answer_with_confidence svc p q prev w = (res, w')"
  then have ex: "extract_patient_context svc p = Inr base"
    and ac: "generate_base_answer svc ?ctx q w = (Inr (v, r), w1)"
    and cr: "critic_evaluate_answer svc ?ctx q v r w1 = (Inr (conf, imps), w2)"
    and lt: "less_than_0_8 conf = Inr low"
    and run: "generate_answer_with_confidence svc p q prev w = (res, w')"
    by simp_all
  have no: "new_steps w w' = [ActorStep, CriticStep]
      \<and> res = make_answer svc q v (if enable_confidence svc then conf else JFloat (Finite 1))
                   r (if truthy imps then imps else JNull)" if n: "\<not> ?cond"
  proof -
    from unrefined_run [OF ex ac cr lt n] run have "w' = w2"
      and "res = make_answer svc q v (if enable_confidence svc then conf else JFloat (Finite 1))
                   r (if truthy imps then imps else JNull)"
      by simp_all
    with unrefined_steps [OF ac cr] show ?thesis
      by simp
  qed
  have yes: "new_steps w w' = [ActorStep, CriticStep, RefinerStep]
       \<or> new_steps w w' = [ActorStep, CriticStep, RefinerStep, CriticStep]" if c: "?cond"
  proof -
    from c lt have "less_than_0_8 conf = Inr True"
      by simp
    from refined_steps [OF ex ac cr this _ _ run] c show ?thesis
      by simp
  qed
  show "RefinerStep \<in> set (new_steps w w') \<longleftrightarrow> ?cond"
  proof (cases ?cond)
    case True
    with yes show ?thesis
      by auto
  next
    case False
    with no show ?thesis
      by auto
  qed
  show "new_steps w w' = [ActorStep, CriticStep]" if "\<not> ?cond"
    using no that by blast
  show "res = make_answer svc q v (if enable_confidence svc then conf else JFloat (Finite 1))
                   r (if truthy imps then imps else JNull)" if "\<not> ?cond"
    using no that by blast
  show "\<forall>v' r' w3 conf' imps' w4.
      refine_answer_with_feedback svc ?ctx q v imps w2 = (Inr (v', r'), w3)
      \<and> critic_evaluate_answer svc ?ctx q v' r' w3 = (Inr (conf', imps'), w4)
     \<longrightarrow> new_steps w w' = [ActorStep, CriticStep, RefinerStep, CriticStep]
        \<and> res = make_answer svc q v'
                  (if enable_confidence svc then conf' else JFloat (Finite 1)) r' imps"
    if c: "?cond"
  proof (intro allI impI)
    fix v' r' w3 conf' imps' w4
    assume g: "refine_answer_with_feedback svc ?ctx q v imps w2 = (Inr (v', r'), w3)
      \<and> critic_evaluate_answer svc ?ctx q v' r' w3 = (Inr (conf', imps'), w4)"
    from c lt have lt': "less_than_0_8 conf = Inr True"
      by simp
    from g have rf: "refine_answer_with_feedback svc ?ctx q v imps w2 = (Inr (v', r'), w3)"
      and cr2: "critic_evaluate_answer svc ?ctx q v' r' w3 = (Inr (conf', imps'), w4)"
      by simp_all
    from refined_run [OF ex ac cr lt' _ _ rf] c cr2 run
    have w4: "w' = w4" and res: "res = make_answer svc q v'
        (if enable_confidence svc then conf' else JFloat (Finite 1)) r' imps"
      by simp_all
    have "steps w1 = steps w @ [ActorStep]"
      using ac by (rule actor_steps)
    moreover have "steps w2 = steps w1 @ [CriticStep]"
      using cr by (rule critic_steps)
    moreover have "steps w3 = steps w2 @ [RefinerStep]"
      using rf by (rule refiner_steps)
    moreover have "steps w4 = steps w3 @ [CriticStep]"
      using cr2 by (rule critic_steps)
    ultimately have "new_steps w w' = [ActorStep, CriticStep, RefinerStep, CriticStep]"
      using w4 by (simp add: new_steps_def)
    with res show "new_steps w w' = [ActorStep, CriticStep, RefinerStep, CriticStep]
        \<and> res = make_answer svc q v'
                  (if enable_confidence svc then conf' else JFloat (Finite 1)) r' imps"
      by simp
  qed
next
  show "count_list (new_steps w (snd (generate_answer_with_confidence svc p q prev w)))
      RefinerStep \<le> 1"
    by (rule refiner_once)
next
  let ?ctx = "with_previous_answers base prev"
  assume h: "\<not> enable_actor_critic svc \<and> extract_patient_context svc p = Inr base
        \<and> generate_base_answer svc ?ctx q w = (Inr (v, r), w1)
        \<and> generate_answer_with_confidence svc p q prev w = (res, w')"
  then have off: "\<not> enable_actor_critic svc"
    and ex: "extract_patient_context svc p = Inr base"
    and ac: "generate_base_answer svc ?ctx q w = (Inr (v, r), w1)"
    and run: "generate_answer_with_confidence svc p q prev w = (res, w')"
    by simp_all
  have cr: "critic_evaluate_answer svc ?ctx q v r w1
      = (Inr (JFloat (Finite 0.9), JArr []), enter CriticStep w1)"
    using off by (rule critic_disabled)
  have lt: "less_than_0_8 (JFloat (Finite 0.9)) = Inr False"
    by simp
  from unrefined_run [OF ex ac cr lt] run
  have w': "w' = enter CriticStep w1"
    and res: "res = make_answer svc q v
        (if enable_confidence svc then JFloat (Finite 0.9) else JFloat (Finite 1)) r JNull"
    by simp_all
  from unrefined_steps [OF ac cr] w' show "new_steps w w' = [ActorStep, CriticStep]"
    by simp
  from res show r2: "res = make_answer svc q v
      (JFloat (Finite (if enable_confidence svc then 0.9 else 1))) r JNull"
    by simp
  show "\<forall>a. res = Inr a \<longrightarrow> awc_value a = v"
    using r2 make_answer_value by metis
next
  show "truthy (JArr xs) = (xs \<noteq> [])"
    by simp
qed

text \<open>
  C1: once the Critic has scored the first answer, the Refiner is called iff the score is
  below 0.8, the improvements are not empty and actor-critic mode is on. The comparison is
  the strict one with 8/10: on a float or an integer score it is \<open>c < 8/10\<close>, an infinite
  score compares as on the number line, a NaN is below nothing and a score that is not a
  number raises. So a score of exactly 0.8 does not lead to a refinement. The Refiner is called at most once; after a refinement the answer is built
  from the refined value and the score of the second Critic pass; with actor-critic mode
  off the two steps are Actor and Critic and the value returned is the Actor's.
\<close>

theorem refinement_decision:
  "(extract_patient_context svc p = Inr base
      \<and> generate_base_answer svc (with_previous_answers base prev) q w = (Inr (v, r), w1)
      \<and> critic_evaluate_answer svc (with_previous_answers base prev) q v r w1
          = (Inr (JFloat (Finite c), imps), w2)
      \<and> generate_answer_with_confidence svc p q prev w = (res, w')
    \<longrightarrow> (RefinerStep \<in> set (new_steps w w')
            \<longleftrightarrow> c < 8 / 10 \<and> truthy imps \<and> enable_actor_critic svc))
   \<and> (less_than_0_8 (JFloat (Finite c)) = Inr (c < 8 / 10)
      \<and> less_than_0_8 (JInt i) = Inr (of_int i < (8 / 10 :: rat))
      \<and> less_than_0_8 (JBool b) = Inr (\<not> b)
      \<and> less_than_0_8 (JFloat NegInf) = Inr True
      \<and> less_than_0_8 (JFloat PosInf) = Inr False
      \<and> less_than_0_8 (JFloat NaN) = Inr False
      \<and> less_than_0_8 JNull = Inl TypeError
      \<and> less_than_0_8 (JStr s) = Inl TypeError
      \<and> less_than_0_8 (JArr xs) = Inl TypeError
      \<and> less_than_0_8 (JObj kvs) = Inl TypeError)
   \<and> (extract_patient_context svc p = Inr base
      \<and> generate_base_answer svc (with_previous_answers base prev) q w = (Inr (v, r), w1)
      \<and> critic_evaluate_answer svc (with_previous_answers base prev) q v r w1
          = (Inr (conf, imps), w2)
      \<and> less_than_0_8 conf = Inr low
      \<and> generate_answer_with_confidence svc p q prev w = (res, w')
    \<longrightarrow> (RefinerStep \<in> set (new_steps w w') \<longleftrightarrow> low \<and> truthy imps \<and> enable_actor_critic svc)
      \<and> (\<not> (low \<and> truthy imps \<and> enable_actor_critic svc) \<longrightarrow>
           new_steps w w' = [ActorStep, CriticStep]
           \<and> res = make_answer svc q v (if enable_confidence svc then conf else JFloat (Finite 1))
                   r (if truthy imps then imps else JNull))
      \<and> (low \<and> truthy imps \<and> enable_actor_critic svc \<longrightarrow>
           (\<forall>v' r' w3 conf' imps' w4.
              refine_answer_with_feedback svc (with_previous_answers base prev) q v imps w2
                = (Inr (v', r'), w3)
              \<and> critic_evaluate_answer svc (with_previous_answers base prev) q v' r' w3
                = (Inr (conf', imps'), w4)
             \<longrightarrow> new_steps w w' = [ActorStep, CriticStep, RefinerStep, CriticStep]
                \<and> res = make_answer svc q v'
                          (if enable_confidence svc then conf' else JFloat (Finite 1)) r' imps)))
   \<and> count_list (new_steps w (snd (generate_answer_with_confidence svc p q prev w))) RefinerStep \<le> 1
   \<and> (\<not> enable_actor_critic svc \<and> extract_patient_context svc p = Inr base
        \<and> generate_base_answer svc (with_previous_answers base prev) q w = (Inr (v, r), w1)
        \<and> generate_answer_with_confidence svc p q prev w = (res, w')
      \<longrightarrow> new_steps w w' = [ActorStep, CriticStep]
         \<and> res = make_answer svc q v
                  (JFloat (Finite (if enable_confidence svc then 0.9 else 1))) r JNull
         \<and> (\<forall>a. res = Inr a \<longrightarrow> awc_value a = v))
   \<and> truthy (JArr xs) = (xs \<noteq> [])"
proof -
  let ?ctx = "with_previous_answers base prev"
  let ?run = "extract_patient_context svc p = Inr base
      \<and> generate_base_answer svc ?ctx q w = (Inr (v, r), w1)"
  have float_score: "RefinerStep \<in> set (new_steps w w')
      \<longleftrightarrow> c < 8 / 10 \<and> truthy imps \<and> enable_actor_critic svc"
    if h: "?run \<and> critic_evaluate_answer svc ?ctx q v r w1 = (Inr (JFloat (Finite c), imps), w2)
      \<and> generate_answer_with_confidence svc p q prev w = (res, w')"
  proof -
    have "less_than_0_8 (JFloat (Finite c)) = Inr (c < 8 / 10)"
      by simp
    with h refinement_after_critic [where svc = svc and p = p and base = base and prev = prev
        and q = q and w = w and v = v and r = r and ?w1.0 = w1 and conf = "JFloat (Finite c)"
        and imps = imps and ?w2.0 = w2 and low = "c < 8 / 10" and res = res and w' = w']
    show ?thesis
      by blast
  qed
  have comparison: "less_than_0_8 (JFloat (Finite c)) = Inr (c < 8 / 10)
      \<and> less_than_0_8 (JInt i) = Inr (of_int i < (8 / 10 :: rat))
      \<and> less_than_0_8 (JBool b) = Inr (\<not> b)
      \<and> less_than_0_8 (JFloat NegInf) = Inr True
      \<and> less_than_0_8 (JFloat PosInf) = Inr False
      \<and> less_than_0_8 (JFloat NaN) = Inr False
      \<and> less_than_0_8 JNull = Inl TypeError
      \<and> less_than_0_8 (JStr s) = Inl TypeError
      \<and> less_than_0_8 (JArr xs) = Inl TypeError
      \<and> less_than_0_8 (JObj kvs) = Inl TypeError"
    by simp
  note rest = refinement_after_critic [where svc = svc and p = p and base = base and prev = prev
      and q = q and w = w and v = v and r = r and ?w1.0 = w1 and conf = conf
      and imps = imps and ?w2.0 = w2 and low = low and res = res and w' = w' and xs = xs]
  show ?thesis
    using float_score
    by (intro conjI [OF _ conjI [OF comparison rest]] impI) blast
qed

lemma demo_critic:
  "critic_evaluate_answer demo_service ctx demo_question v r \<lparr>calls = 1, steps = [ActorStep]\<rparr>
     = (Inr (JFloat (Finite 0.5), JArr [JStr ''Cite the visit note'']),
        \<lparr>calls = 2, steps = [ActorStep, CriticStep]\<rparr>)"
  by (simp add: critic_evaluate_answer_def demo_service_def demo_tape_def enter_def completion_def)

lemma demo_critic_again:
  "critic_evaluate_answer demo_service ctx demo_question v r
       \<lparr>calls = 3, steps = [ActorStep, CriticStep, RefinerStep]\<rparr>
     = (Inr (JFloat (Finite 0.95), JArr []), demo_final)"
  by (simp add: critic_evaluate_answer_def demo_service_def demo_tape_def enter_def completion_def
      demo_final_def)

lemma boundary_context:
  "extract_patient_context boundary_service p = extract_patient_context demo_service p"
  by (simp add: boundary_service_def extract_patient_context_def)

lemma boundary_actor:
  "generate_base_answer boundary_service ctx demo_question start
     = (Inr (VBool True, JStr ''BMI is 32.9''), \<lparr>calls = 1, steps = [ActorStep]\<rparr>)"
  by (simp add: generate_base_answer_def boundary_service_def boundary_tape_def
      demo_service_def demo_question_def start_def enter_def completion_def lower_def
      lower_char_def upper_letters_def lower_letters_def)

lemma boundary_critic:
  "critic_evaluate_answer boundary_service ctx demo_question v r \<lparr>calls = 1, steps = [ActorStep]\<rparr>
     = (Inr (JFloat (Finite 0.8), JArr [JStr ''Cite the visit note'']),
        \<lparr>calls = 2, steps = [ActorStep, CriticStep]\<rparr>)"
  by (simp add: critic_evaluate_answer_def boundary_service_def boundary_tape_def
      demo_service_def enter_def completion_def)

lemma boundary_run:
  "generate_answer_with_confidence boundary_service demo_patient demo_question None start
     = (Inr \<lparr>awc_question = demo_question, awc_value = VBool True, awc_confidence = 0.8,
             awc_reasoning = Some ''BMI is 32.9'',
             awc_improvements = Some [''Cite the visit note'']\<rparr>,
        \<lparr>calls = 2, steps = [ActorStep, CriticStep]\<rparr>)"
proof -
  obtain base where ex: "extract_patient_context boundary_service demo_patient = Inr base"
    using demo_context boundary_context by auto
  have lt: "less_than_0_8 (JFloat (Finite 0.8)) = Inr False"
    by simp
  have "enable_confidence boundary_service"
    by (simp add: boundary_service_def demo_service_def)
  with unrefined_run [OF ex boundary_actor boundary_critic lt] show ?thesis
    by (simp add: make_answer_def)
qed

lemma plain_context:
  "extract_patient_context plain_service p = extract_patient_context demo_service p"
  by (simp add: plain_service_def extract_patient_context_def)

lemma plain_actor:
  "generate_base_answer plain_service ctx demo_question start
     = (Inr (VBool True, JStr ''BMI is 32.9''), \<lparr>calls = 1, steps = [ActorStep]\<rparr>)"
  by (simp add: generate_base_answer_def plain_service_def demo_service_def demo_question_def
      demo_tape_def start_def enter_def completion_def lower_def lower_char_def
      upper_letters_def lower_letters_def)

lemma plain_run:
  "generate_answer_with_confidence plain_service demo_patient demo_question None start
     = (Inr \<lparr>awc_question = demo_question, awc_value = VBool True, awc_confidence = 0.9,
             awc_reasoning = Some ''BMI is 32.9'', awc_improvements = None\<rparr>,
        \<lparr>calls = 1, steps = [ActorStep, CriticStep]\<rparr>)"
proof -
  obtain base where ex: "extract_patient_context plain_service demo_patient = Inr base"
    using demo_context plain_context by auto
  have off: "\<not> enable_actor_critic plain_service"
    by (simp add: plain_service_def)
  have lt: "less_than_0_8 (JFloat (Finite 0.9)) = Inr False"
    by simp
  have "enable_confidence plain_service"
    by (simp add: plain_service_def demo_service_def)
  with unrefined_run [OF ex plain_actor critic_disabled [OF off] lt] show ?thesis
    by (simp add: make_answer_def enter_def)
qed

theorem refinement_decision_witness:
  "generate_answer_with_confidence demo_service demo_patient demo_question None start
     = (Inr \<lparr>awc_question = demo_question, awc_value = VBool True, awc_confidence = 0.95,
             awc_reasoning = Some ''Visit note 1 gives a BMI of 32.9'',
             awc_improvements = Some [''Cite the visit note'']\<rparr>,
        \<lparr>calls = 4, steps = [ActorStep, CriticStep, RefinerStep, CriticStep]\<rparr>)
   \<and> RefinerStep \<in> set (new_steps start
        (snd (generate_answer_with_confidence demo_service demo_patient demo_question None start)))
   \<and> new_steps start
        (snd (generate_answer_with_confidence demo_service demo_patient demo_question None start))
       = [ActorStep, CriticStep, RefinerStep, CriticStep]
   \<and> fst (generate_answer_with_confidence demo_service demo_patient demo_question None start)
       = make_answer demo_service demo_question (VBool True) (JFloat (Finite 0.95))
           (JStr ''Visit note 1 gives a BMI of 32.9'') (JArr [JStr ''Cite the visit note''])
   \<and> generate_answer_with_confidence boundary_service demo_patient demo_question None start
     = (Inr \<lparr>awc_question = demo_question, awc_value = VBool True, awc_confidence = 0.8,
             awc_reasoning = Some ''BMI is 32.9'',
             awc_improvements = Some [''Cite the visit note'']\<rparr>,
        \<lparr>calls = 2, steps = [ActorStep, CriticStep]\<rparr>)
   \<and> RefinerStep \<notin> set (new_steps start
        (snd (generate_answer_with_confidence boundary_service demo_patient demo_question None
           start)))
   \<and> generate_answer_with_confidence plain_service demo_patient demo_question None start
     = (Inr \<lparr>awc_question = demo_question, awc_value = VBool True, awc_confidence = 0.9,
             awc_reasoning = Some ''BMI is 32.9'', awc_improvements = None\<rparr>,
        \<lparr>calls = 1, steps = [ActorStep, CriticStep]\<rparr>)
   \<and> new_steps start
        (snd (generate_answer_with_confidence plain_service demo_patient demo_question None start))
       = [ActorStep, CriticStep]"
proof -
  obtain base where ex: "extract_patient_context demo_service demo_patient = Inr base"
    using demo_context by blast
  let ?ctx = "with_previous_answers base None"
  let ?w1 = "\<lparr>calls = 1, steps = [ActorStep]\<rparr>"
  let ?w2 = "\<lparr>calls = 2, steps = [ActorStep, CriticStep]\<rparr>"
  have run: "generate_answer_with_confidence demo_service demo_patient demo_question None start
     = (Inr \<lparr>awc_question = demo_question, awc_value = VBool True, awc_confidence = 0.95,
             awc_reasoning = Some ''Visit note 1 gives a BMI of 32.9'',
             awc_improvements = Some [''Cite the visit note'']\<rparr>,
        \<lparr>calls = 4, steps = [ActorStep, CriticStep, RefinerStep, CriticStep]\<rparr>)"
    using demo_run by (simp add: demo_answer_def demo_final_def)
  have on: "enable_actor_critic demo_service" "enable_confidence demo_service"
    by (simp_all add: demo_service_def)
  have lt: "less_than_0_8 (JFloat (Finite 0.5)) = Inr True"
    by simp
  note t = refinement_decision [where svc = demo_service and p = demo_patient
      and q = demo_question and prev = None and w = start and base = base
      and v = "VBool True" and r = "JStr ''BMI is 32.9''" and ?w1.0 = ?w1
      and c = "0.5" and conf = "JFloat (Finite 0.5)"
      and imps = "JArr [JStr ''Cite the visit note'']" and ?w2.0 = ?w2 and low = True
      and res = "Inr demo_answer" and w' = demo_final]
  from t ex demo_actor [of ?ctx] demo_critic [of ?ctx] demo_run on
  have a: "RefinerStep \<in> set (new_steps start demo_final)"
    by simp
  from t ex demo_actor [of ?ctx] demo_critic [of ?ctx] lt demo_run on
    demo_refiner [of ?ctx] demo_critic_again [of ?ctx]
  have b: "new_steps start demo_final = [ActorStep, CriticStep, RefinerStep, CriticStep]
      \<and> Inr demo_answer = make_answer demo_service demo_question (VBool True)
        (JFloat (Finite 0.95)) (JStr ''Visit note 1 gives a BMI of 32.9'')
        (JArr [JStr ''Cite the visit note''])"
    by simp
  have bon: "enable_actor_critic boundary_service"
    by (simp add: boundary_service_def demo_service_def)
  from refinement_decision [where svc = boundary_service and p = demo_patient
      and q = demo_question and prev = None and w = start and base = base
      and v = "VBool True" and r = "JStr ''BMI is 32.9''" and ?w1.0 = ?w1
      and c = "0.8" and imps = "JArr [JStr ''Cite the visit note'']" and ?w2.0 = ?w2
      and res = "fst (generate_answer_with_confidence boundary_service demo_patient
          demo_question None start)"
      and w' = "snd (generate_answer_with_confidence boundary_service demo_patient
          demo_question None start)"]
    ex boundary_context [of demo_patient] boundary_actor [of ?ctx] boundary_critic [of ?ctx]
  have c: "RefinerStep \<notin> set (new_steps start
        (snd (generate_answer_with_confidence boundary_service demo_patient demo_question None
           start)))"
    by simp
  have off: "\<not> enable_actor_critic plain_service"
    by (simp add: plain_service_def)
  from refinement_decision [where svc = plain_service and p = demo_patient
      and q = demo_question and prev = None and w = start and base = base
      and v = "VBool True" and r = "JStr ''BMI is 32.9''" and ?w1.0 = ?w1
      and res = "fst (generate_answer_with_confidence plain_service demo_patient
          demo_question None start)"
      and w' = "snd (generate_answer_with_confidence plain_service demo_patient
          demo_question None start)"]
    off ex plain_context [of demo_patient] plain_actor [of ?ctx]
  have d: "new_steps start
        (snd (generate_answer_with_confidence plain_service demo_patient demo_question None start))
       = [ActorStep, CriticStep]"
    by simp
  from run a b c d boundary_run plain_run demo_run show ?thesis
    by simp
qed

section \<open>Properties of batch processing\<close>

lemma process_loop_append:
  "process_loop svc p (qs1 @ qs2) acc answered w =
     (case process_loop svc p qs1 acc answered w of
        (Inl e, w') \<Rightarrow> (Inl e, w')
      | (Inr (acc', answered'), w') \<Rightarrow> process_loop svc p qs2 acc' answered' w')"
  by (induction qs1 arbitrary: acc answered w) (auto split: prod.splits sum.splits)

lemma process_loop_questions:
  "process_loop svc p qs acc answered w = (Inr (acc', answered'), w') \<Longrightarrow>
     \<exists>new. acc' = acc @ new \<and> subseq (map awc_question new) qs"
proof (induction qs arbitrary: acc answered w)
  case Nil
  then show ?case by simp
next
  case (Cons q qs)
  show ?case
  proof (cases "skipped q answered")
    case True
    with Cons.prems have "process_loop svc p qs acc answered w = (Inr (acc', answered'), w')"
      by simp
    from Cons.IH [OF this] obtain new where "acc' = acc @ new" "subseq (map awc_question new) qs"
      by blast
    then show ?thesis
      by (auto intro: subseq_Cons')
  next
    case False
    with Cons.prems obtain a w1 where
      g: "generate_answer_with_confidence svc p q (Some answered) w = (Inr a, w1)"
      and l: "process_loop svc p qs (acc @ [a]) (dict_set answered (key q) (awc_value a)) w1
          = (Inr (acc', answered'), w')"
      by (auto split: prod.splits sum.splits)
    from Cons.IH [OF l] obtain new where n: "acc' = (acc @ [a]) @ new"
      "subseq (map awc_question new) qs"
      by blast
    have "awc_question a = q"
      using g pipeline_result_made make_answer_value by blast
    with n have "acc' = acc @ (a # new)" "subseq (map awc_question (a # new)) (q # qs)"
      by simp_all
    then show ?thesis
      by blast
  qed
qed

text \<open>
  C4: a question whose condition is false is passed over: the loop goes on with the list of
  answers, the accumulated dictionary and the state of the client as they were, so the
  run is the run without that question; the answers returned belong, in order, to
  questions of the batch.
\<close>

theorem skipped_question_leaves_no_trace:
  "(skipped q answered \<longrightarrow>
      process_loop svc p (q # qs) acc answered w = process_loop svc p qs acc answered w)
   \<and> (process_loop svc p qs1 acc answered w = (Inr (acc1, answered1), w1) \<and> skipped q answered1
      \<longrightarrow> process_loop svc p (qs1 @ [q]) acc answered w = (Inr (acc1, answered1), w1)
         \<and> process_loop svc p (qs1 @ q # qs2) acc answered w
             = process_loop svc p (qs1 @ qs2) acc answered w)
   \<and> (skipped q [] \<longrightarrow>
        process_questions_batch svc p (q # qs) w = process_questions_batch svc p qs w)
   \<and> (process_questions_batch svc p qs w = (Inr answers, w')
      \<longrightarrow> subseq (map awc_question answers) qs)"
proof (intro conjI impI)
  assume "skipped q answered"
  then show "process_loop svc p (q # qs) acc answered w = process_loop svc p qs acc answered w"
    by simp
next
  assume h: "process_loop svc p qs1 acc answered w = (Inr (acc1, answered1), w1)
    \<and> skipped q answered1"
  then show "process_loop svc p (qs1 @ [q]) acc answered w = (Inr (acc1, answered1), w1)"
    by (simp add: process_loop_append)
  from h show "process_loop svc p (qs1 @ q # qs2) acc answered w
      = process_loop svc p (qs1 @ qs2) acc answered w"
    by (simp add: process_loop_append)
next
  assume "skipped q []"
  then show "process_questions_batch svc p (q # qs) w = process_questions_batch svc p qs w"
    by (simp add: process_questions_batch_def)
next
  assume "process_questions_batch svc p qs w = (Inr answers, w')"
  then obtain answered where "process_loop svc p qs [] [] w = (Inr (answers, answered), w')"
    by (auto simp: process_questions_batch_def split: prod.splits sum.splits)
  from process_loop_questions [OF this] show "subseq (map awc_question answers) qs"
    by simp
qed

lemma demo_run_first:
  "generate_answer_with_confidence demo_service demo_patient demo_question (Some []) start
     = (Inr demo_answer, demo_final)"
proof -
  have e: "with_previous_answers b (Some []) = with_previous_answers b None" for b
    by (simp add: with_previous_answers_def)
  have "generate_answer_with_confidence demo_service demo_patient demo_question (Some []) start
      = generate_answer_with_confidence demo_service demo_patient demo_question None start"
    by (simp only: generate_answer_with_confidence_def e)
  then show ?thesis
    by (simp add: demo_run)
qed

lemma demo_loop:
  "process_loop demo_service demo_patient [demo_question] [] [] start
     = (Inr ([demo_answer], [(''bmi_ge30'', VBool True)]), demo_final)"
  by (simp add: demo_run_first skipped_def)
    (simp add: demo_question_def demo_answer_def)

lemma follow_up_skipped: "skipped follow_up [(''bmi_ge30'', VBool True)]"
  by (simp add: skipped_def follow_up_def evaluate_condition_flat clause_holds_def
      match_clause_def match_value_def strip_def is_space_def lower_def lower_char_def
      upper_letters_def lower_letters_def)

lemma follow_up_skipped_first: "skipped follow_up []"
  by (simp add: skipped_def follow_up_def evaluate_condition_flat clause_holds_def
      match_clause_def match_value_def strip_def is_space_def)

theorem skipped_question_leaves_no_trace_witness:
  "process_loop demo_service demo_patient [demo_question, follow_up] [] [] start
     = (Inr ([demo_answer], [(''bmi_ge30'', VBool True)]), demo_final)
   \<and> process_questions_batch demo_service demo_patient [follow_up, demo_question] start
     = (Inr [demo_answer], demo_final)
   \<and> subseq (map awc_question [demo_answer]) [follow_up, demo_question]"
proof -
  note t = skipped_question_leaves_no_trace [where svc = demo_service and p = demo_patient
      and q = follow_up and ?qs1.0 = "[demo_question]" and acc = "[]" and answered = "[]"
      and w = start and ?acc1.0 = "[demo_answer]" and ?answered1.0 = "[(''bmi_ge30'', VBool True)]"
      and ?w1.0 = demo_final and qs = "[demo_question]" and answers = "[demo_answer]"
      and w' = demo_final]
  from t demo_loop follow_up_skipped
  have a: "process_loop demo_service demo_patient [demo_question, follow_up] [] [] start
     = (Inr ([demo_answer], [(''bmi_ge30'', VBool True)]), demo_final)"
    by simp
  from t follow_up_skipped_first demo_loop
  have b: "process_questions_batch demo_service demo_patient [follow_up, demo_question] start
     = (Inr [demo_answer], demo_final)"
    by (simp add: process_questions_batch_def)
  from skipped_question_leaves_no_trace [where svc = demo_service and p = demo_patient
      and qs = "[follow_up, demo_question]" and w = start and answers = "[demo_answer]"
      and w' = demo_final] b
  have "subseq (map awc_question [demo_answer]) [follow_up, demo_question]"
    by blast
  with a b show ?thesis
    by blast
qed

section \<open>Properties of the evaluation harness\<close>

lemmas float_ev = py_float_of_def float_literal_of_def number_literal_def exponent_part_def
  scale10_def int_of_digits_def digit_val_def is_digit_def strip_def is_space_def
  lower_def lower_char_def upper_letters_def lower_letters_def Let_def

lemma float_of_32_9: "py_float_of nearest ''32.9'' = Inr (to_float nearest (329 / 10))"
  by (simp add: float_ev)

lemma float_of_words: "py_float_of nearest ''thirty-four'' = Inl ValueError"
  by (simp add: float_ev)

lemma py_float_of_examples:
  "py_float_of nearest '' -1_000.5e-2 '' = Inr (to_float nearest (- 2001 / 200))"
  "py_float_of nearest ''-Infinity'' = Inr NegInf"
  "py_float_of nearest ''.5'' = Inr (to_float nearest (1 / 2))"
  "py_float_of nearest ''5.'' = Inr (to_float nearest 5)"
  "py_float_of nearest ''1e'' = Inl ValueError"
  "py_float_of nearest ''1__0'' = Inl ValueError"
  "py_float_of nearest ''34 years'' = Inl ValueError"
  by (simp_all add: float_ev)

lemma units_dropped: "without_units (''32.9 kg/m'' @ [CHR 0xB2]) = ''32.9''"
  by (simp add: without_units_def strip_def is_space_def)

lemma units_absent: "without_units ''32.9'' = ''32.9''"
  by (simp add: without_units_def strip_def is_space_def)

lemma to_float_eq: "float_eq (to_float nearest q) (to_float nearest q)"
  by (simp add: float_eq_def to_float_def split: option.splits)

lemma check_is_spec:
  "check_answer_correctness nearest actual expected vars = spec_accepts nearest actual expected vars"
proof (cases "actual = expected")
  case True
  then show ?thesis
    by (simp add: check_answer_correctness_def spec_accepts_def)
next
  case ne: False
  show ?thesis
  proof (cases "\<exists>vs. vars = Some vs \<and> actual \<in> set vs")
    case True
    then show ?thesis
      by (auto simp: check_answer_correctness_def spec_accepts_def)
  next
    case False
    then have v: "(case vars of None \<Rightarrow> False | Some vs \<Rightarrow> vs \<noteq> [] \<and> actual \<in> set vs) = False"
      by (cases vars) auto
    show ?thesis
      using ne False unfolding check_answer_correctness_def spec_accepts_def numerically_equal_def v
      by (cases actual; cases expected) (auto split: sum.splits)
  qed
qed

text \<open>
  C7: the check accepts an answer iff it equals the expected one, or is one of the
  acceptable variations, or both are strings that are equal as floating-point numbers
  once \<open>kg/m\<^sup>2\<close>, \<open>years\<close> and the surrounding white space are gone; so \<open>32.9 kg/m\<^sup>2\<close> is
  accepted for \<open>32.9\<close> and \<open>True\<close> for \<open>True\<close>, while \<open>thirty-four\<close> is not accepted for \<open>34\<close>
  unless it is listed as a variation.
\<close>

theorem check_answer_correctness_cases:
  "check_answer_correctness nearest actual expected vars
     = spec_accepts nearest actual expected vars
   \<and> check_answer_correctness nearest (VStr (''32.9 kg/m'' @ [CHR 0xB2])) (VStr ''32.9'') vars
   \<and> check_answer_correctness nearest (VBool True) (VBool True) vars
   \<and> ((\<forall>vs. vars = Some vs \<longrightarrow> VStr ''thirty-four'' \<notin> set vs)
        \<longrightarrow> \<not> check_answer_correctness nearest (VStr ''thirty-four'') (VStr ''34'') vars)"
proof (intro conjI impI)
  show "check_answer_correctness nearest actual expected vars
     = spec_accepts nearest actual expected vars"
    by (rule check_is_spec)
next
  have "numerically_equal nearest (without_units (''32.9 kg/m'' @ [CHR 0xB2])) (without_units ''32.9'')"
    unfolding numerically_equal_def units_dropped units_absent float_of_32_9
    using to_float_eq by blast
  then show "check_answer_correctness nearest (VStr (''32.9 kg/m'' @ [CHR 0xB2])) (VStr ''32.9'') vars"
    unfolding check_is_spec spec_accepts_def by blast
next
  show "check_answer_correctness nearest (VBool True) (VBool True) vars"
    by (simp add: check_answer_correctness_def)
next
  assume h: "\<forall>vs. vars = Some vs \<longrightarrow> VStr ''thirty-four'' \<notin> set vs"
  have "without_units ''thirty-four'' = ''thirty-four''"
    by (simp add: without_units_def strip_def is_space_def)
  then have "\<not> numerically_equal nearest (without_units ''thirty-four'') (without_units ''34'')"
    by (simp add: numerically_equal_def float_of_words)
  with h show "\<not> check_answer_correctness nearest (VStr ''thirty-four'') (VStr ''34'') vars"
    unfolding check_is_spec spec_accepts_def by auto
qed

theorem check_answer_correctness_cases_witness:
  "\<not> check_answer_correctness (\<lambda>q. Some q) (VStr ''thirty-four'') (VStr ''34'')
       (Some [VStr ''34 years'', VStr ''34''])
   \<and> check_answer_correctness (\<lambda>q. Some q) (VStr ''34 years'') (VStr ''34'') None"
proof -
  have "\<forall>vs. Some [VStr ''34 years'', VStr ''34''] = Some vs \<longrightarrow> VStr ''thirty-four'' \<notin> set vs"
    by simp
  with check_answer_correctness_cases [of "\<lambda>q. Some q" "VStr ''34 years''" "VStr ''34''"
      "Some [VStr ''34 years'', VStr ''34'']"]
  have a: "\<not> check_answer_correctness (\<lambda>q. Some q) (VStr ''thirty-four'') (VStr ''34'')
       (Some [VStr ''34 years'', VStr ''34''])"
    by blast
  have "without_units ''34 years'' = ''34''" "without_units ''34'' = ''34''"
    by (simp_all add: without_units_def strip_def is_space_def)
  moreover have "py_float_of (\<lambda>q. Some q) ''34'' = Inr (Finite 34)"
    by (simp add: float_ev to_float_def)
  ultimately have "spec_accepts (\<lambda>q. Some q) (VStr ''34 years'') (VStr ''34'') None"
    by (simp add: spec_accepts_def numerically_equal_def float_eq_def)
  with check_answer_correctness_cases [of "\<lambda>q. Some q" "VStr ''34 years''" "VStr ''34''" None]
  have "check_answer_correctness (\<lambda>q. Some q) (VStr ''34 years'') (VStr ''34'') None"
    by blast
  with a show ?thesis
    by blast
qed

lemma run_tests_results:
  "run_tests nearest svc tcs results history w = (results', history', w') \<Longrightarrow>
     \<exists>new. results' = results @ new \<and> history' = history @ new
       \<and> map question_key new = map (\<lambda>tc. key (tc_question tc)) tcs
       \<and> (\<forall>r \<in> set new. er_error r \<noteq> None \<longrightarrow>
             \<not> is_correct r \<and> \<not> is_acceptable r \<and> er_confidence r = 0)"
proof (induction tcs arbitrary: results history w)
  case Nil
  then show ?case by simp
next
  case (Cons tc tcs)
  obtain r w1 where e: "evaluate_single_test nearest svc tc w = (r, w1)"
    by (cases "evaluate_single_test nearest svc tc w")
  with Cons.prems have "run_tests nearest svc tcs (results @ [r]) (history @ [r]) w1
      = (results', history', w')"
    by simp
  from Cons.IH [OF this] obtain new where n: "results' = (results @ [r]) @ new"
    "history' = (history @ [r]) @ new"
    "map question_key new = map (\<lambda>tc. key (tc_question tc)) tcs"
    "\<forall>r \<in> set new. er_error r \<noteq> None \<longrightarrow> \<not> is_correct r \<and> \<not> is_acceptable r \<and> er_confidence r = 0"
    by blast
  from e have k: "question_key r = key (tc_question tc)"
    and f: "er_error r \<noteq> None \<longrightarrow> \<not> is_correct r \<and> \<not> is_acceptable r \<and> er_confidence r = 0"
    by (auto simp: evaluate_single_test_def Let_def split: prod.splits sum.splits)
  from n k f have "results' = results @ (r # new)" "history' = history @ (r # new)"
    "map question_key (r # new) = map (\<lambda>tc. key (tc_question tc)) (tc # tcs)"
    "\<forall>x \<in> set (r # new). er_error x \<noteq> None \<longrightarrow> \<not> is_correct x \<and> \<not> is_acceptable x \<and> er_confidence x = 0"
    by simp_all
  then show ?case
    by blast
qed

text \<open>
  C6: an exception of the pipeline inside one test case becomes a failed result that
  carries the exception, with \<open>is_correct\<close> and \<open>is_acceptable\<close> false and confidence 0;
  a full run always returns a report, whose total is the number of test cases, and
  appends one result per test case, in order, to the history.
\<close>

theorem evaluation_never_aborts:
  "(generate_answer_with_confidence svc (tc_patient tc) (tc_question tc) None w = (Inl e, w1)
      \<longrightarrow> evaluate_single_test nearest svc tc w =
            (\<lparr>question_key = key (tc_question tc), er_expected = expected_answer tc,
              er_actual = VStr [], er_confidence = 0, is_correct = False, is_acceptable = False,
              er_error = Some e\<rparr>, w1))
   \<and> (generate_answer_with_confidence svc (tc_patient tc) (tc_question tc) None w = (Inr a, w1)
      \<longrightarrow> er_error (fst (evaluate_single_test nearest svc tc w)) = None
         \<and> er_actual (fst (evaluate_single_test nearest svc tc w)) = awc_value a)
   \<and> (\<exists>report results w'.
         run_full_evaluation nearest svc tcs history w = (report, history @ results, w')
         \<and> total_tests report = int (length tcs)
         \<and> passed report + failed report = total_tests report
         \<and> length results = length tcs
         \<and> map question_key results = map (\<lambda>tc. key (tc_question tc)) tcs
         \<and> (\<forall>r \<in> set results. er_error r \<noteq> None \<longrightarrow>
               \<not> is_correct r \<and> \<not> is_acceptable r \<and> er_confidence r = 0))"
proof (intro conjI impI)
  assume "generate_answer_with_confidence svc (tc_patient tc) (tc_question tc) None w = (Inl e, w1)"
  then show "evaluate_single_test nearest svc tc w =
            (\<lparr>question_key = key (tc_question tc), er_expected = expected_answer tc,
              er_actual = VStr [], er_confidence = 0, is_correct = False, is_acceptable = False,
              er_error = Some e\<rparr>, w1)"
    by (simp add: evaluate_single_test_def)
next
  assume g: "generate_answer_with_confidence svc (tc_patient tc) (tc_question tc) None w = (Inr a, w1)"
  then show "er_error (fst (evaluate_single_test nearest svc tc w)) = None"
    by (simp add: evaluate_single_test_def Let_def)
  from g show "er_actual (fst (evaluate_single_test nearest svc tc w)) = awc_value a"
    by (simp add: evaluate_single_test_def Let_def)
next
  obtain results history' w' where rt: "run_tests nearest svc tcs [] history w = (results, history', w')"
    by (cases "run_tests nearest svc tcs [] history w") auto
  from run_tests_results [OF rt] have h: "history' = history @ results"
    and k: "map question_key results = map (\<lambda>tc. key (tc_question tc)) tcs"
    and f: "\<forall>r \<in> set results. er_error r \<noteq> None \<longrightarrow>
               \<not> is_correct r \<and> \<not> is_acceptable r \<and> er_confidence r = 0"
    by auto
  from k have l: "length results = length tcs"
    using map_eq_imp_length_eq by blast
  let ?report = "\<lparr>total_tests = int (length results),
      passed = int (length (filter is_acceptable results)),
      failed = int (length results) - int (length (filter is_acceptable results))\<rparr>"
  have "run_full_evaluation nearest svc tcs history w = (?report, history @ results, w')"
    using rt h by (simp add: run_full_evaluation_def Let_def)
  moreover have "total_tests ?report = int (length tcs)"
    using l by simp
  moreover have "passed ?report + failed ?report = total_tests ?report"
    by simp
  ultimately show "\<exists>report results w'.
         run_full_evaluation nearest svc tcs history w = (report, history @ results, w')
         \<and> total_tests report = int (length tcs)
         \<and> passed report + failed report = total_tests report
         \<and> length results = length tcs
         \<and> map question_key results = map (\<lambda>tc. key (tc_question tc)) tcs
         \<and> (\<forall>r \<in> set results. er_error r \<noteq> None \<longrightarrow>
               \<not> is_correct r \<and> \<not> is_acceptable r \<and> er_confidence r = 0)"
    using l k f by blast
qed

lemma broken_run:
  "generate_answer_with_confidence demo_service (tc_patient broken_case) (tc_question broken_case)
     None start = (Inl ValueError, start)"
  by (simp add: generate_answer_with_confidence_def extract_patient_context_def calculate_age_def
      broken_case_def demo_case_def demo_patient_def ev)

lemma demo_case_run:
  "generate_answer_with_confidence demo_service (tc_patient demo_case) (tc_question demo_case)
     None start = (Inr demo_answer, demo_final)"
  by (simp add: demo_case_def demo_run)

lemma demo_evaluation:
  "run_full_evaluation nearest demo_service [broken_case, demo_case] [] start =
     (\<lparr>total_tests = 2, passed = 1, failed = 1\<rparr>,
      [\<lparr>question_key = ''bmi_ge30'', er_expected = VBool True, er_actual = VStr [], er_confidence = 0,
         is_correct = False, is_acceptable = False, er_error = Some ValueError\<rparr>,
       \<lparr>question_key = ''bmi_ge30'', er_expected = VBool True, er_actual = VBool True,
         er_confidence = 0.95, is_correct = True, is_acceptable = True, er_error = None\<rparr>],
      demo_final)"
  by (simp add: run_full_evaluation_def evaluate_single_test_def broken_run demo_case_run
      check_answer_correctness_def Let_def)
    (simp add: broken_case_def demo_case_def demo_question_def demo_answer_def)

theorem evaluation_never_aborts_witness:
  "evaluate_single_test (\<lambda>q. Some q) demo_service broken_case start =
     (\<lparr>question_key = key (tc_question broken_case), er_expected = expected_answer broken_case,
       er_actual = VStr [], er_confidence = 0, is_correct = False, is_acceptable = False,
       er_error = Some ValueError\<rparr>, start)
   \<and> er_error (fst (evaluate_single_test (\<lambda>q. Some q) demo_service demo_case start)) = None
   \<and> (\<exists>report results w'.
         run_full_evaluation (\<lambda>q. Some q) demo_service [broken_case, demo_case] [] start
           = (report, results, w')
         \<and> total_tests report = 2 \<and> length results = 2
         \<and> (\<exists>r \<in> set results. er_error r \<noteq> None \<and> \<not> is_acceptable r \<and> er_confidence r = 0))"
proof -
  from evaluation_never_aborts [where svc = demo_service and tc = broken_case and w = start
      and e = ValueError and ?w1.0 = start and nearest = "\<lambda>q. Some q"] broken_run
  have a: "evaluate_single_test (\<lambda>q. Some q) demo_service broken_case start =
     (\<lparr>question_key = key (tc_question broken_case), er_expected = expected_answer broken_case,
       er_actual = VStr [], er_confidence = 0, is_correct = False, is_acceptable = False,
       er_error = Some ValueError\<rparr>, start)"
    by blast
  from evaluation_never_aborts [where svc = demo_service and tc = demo_case and w = start
      and a = demo_answer and ?w1.0 = demo_final and nearest = "\<lambda>q. Some q"] demo_case_run
  have b: "er_error (fst (evaluate_single_test (\<lambda>q. Some q) demo_service demo_case start)) = None"
    by blast
  note t = evaluation_never_aborts [where svc = demo_service and nearest = "\<lambda>q. Some q"
      and tcs = "[broken_case, demo_case]" and history = "[]" and w = start
      and tc = demo_case and e = ValueError and a = demo_answer and ?w1.0 = demo_final,
      THEN conjunct2, THEN conjunct2]
  then obtain report results w' where r:
    "run_full_evaluation (\<lambda>q. Some q) demo_service [broken_case, demo_case] [] start
       = (report, [] @ results, w')"
    "total_tests report = int (length [broken_case, demo_case])"
    "length results = length [broken_case, demo_case]"
    "\<forall>r \<in> set results. er_error r \<noteq> None \<longrightarrow> \<not> is_correct r \<and> \<not> is_acceptable r \<and> er_confidence r = 0"
    by blast
  from r(1) demo_evaluation [of "\<lambda>q. Some q"] have "\<exists>x \<in> set results. er_error x \<noteq> None"
    by auto
  with r(4) have "\<exists>r \<in> set results. er_error r \<noteq> None \<and> \<not> is_acceptable r \<and> er_confidence r = 0"
    by blast
  with a b r(1-3) show ?thesis
    by auto
qed

end
